theory Spec2Isabelle
  imports Main "HOL-Library.AList"
begin

section \<open>Values, strings and objects of the program\<close>

text \<open>
  The program is \<^verbatim>\<open>src/Source tool/main.js\<close>. Its pure core is \<^verbatim>\<open>normalizeData\<close>
  (with the nested helper \<^verbatim>\<open>getMasterKey\<close>) and \<^verbatim>\<open>generateCondensedData\<close>; the rest
  is DOM wiring, file reading and file export.

  Modelling decisions, each one a restriction of what JavaScript has:
  \<^item> A cell value is a JavaScript primitive. Numbers are the integer-valued ones of
    magnitude below \<open>10^21\<close>, for which \<^verbatim>\<open>String(n)\<close> is the decimal numeral, and \<open>NaN\<close>.
  \<^item> A string is a list of ASCII characters: \<^verbatim>\<open>toLowerCase\<close> and \<^verbatim>\<open>toUpperCase\<close> map
    the 26 letters, \<^verbatim>\<open>trim\<close> strips TAB, LF, VT, FF, CR and SPACE.
  \<^item> An object is the list of its own properties in insertion order, which is the order
    \<^verbatim>\<open>Object.keys\<close> enumerates them in, unless a key is an array index such as \<^verbatim>\<open>"7"\<close>
    (those JavaScript enumerates first). Every object of the program is a plain object,
    whose prototype is \<^verbatim>\<open>Object.prototype\<close>: a read \<^verbatim>\<open>o[k]\<close> that finds no own property
    \<open>k\<close> finds the member \<open>k\<close> of \<^verbatim>\<open>Object.prototype\<close> when there is one (\<^verbatim>\<open>constructor\<close>,
    \<^verbatim>\<open>toString\<close>, ...), and a write \<^verbatim>\<open>o["__proto__"] = v\<close> to an object without that own
    property goes to the inherited setter, which ignores a primitive \<open>v\<close>. The setter
    given \<^verbatim>\<open>null\<close> would cut the object off its prototype; the model ignores that value too.
  \<^item> A \<^verbatim>\<open>Map\<close> is the list of its entries in insertion order.
\<close>

text \<open>
  \<open>Builtin k\<close> is the member \<open>k\<close> of \<^verbatim>\<open>Object.prototype\<close>, a function (the prototype object
  itself for \<^verbatim>\<open>__proto__\<close>): what a read finds through the prototype chain. It is no cell
  value.
\<close>

datatype jsval = Undefined | Null | Bool bool | Num int | NaN | Str string | Builtin string

text \<open>The property names of \<^verbatim>\<open>Object.prototype\<close>.\<close>

definition protoMembers :: "string list" where
  "protoMembers =
    [''constructor'', ''__defineGetter__'', ''__defineSetter__'', ''hasOwnProperty'',
     ''__lookupGetter__'', ''__lookupSetter__'', ''isPrototypeOf'', ''propertyIsEnumerable'',
     ''toString'', ''valueOf'', ''__proto__'', ''toLocaleString'']"

type_synonym obj = "(string \<times> jsval) list"

text \<open>
  \<^verbatim>\<open>o[k]\<close>: the value of the own property; without one, the member of
  \<^verbatim>\<open>Object.prototype\<close> of that name; \<^verbatim>\<open>undefined\<close> when there is neither.
\<close>

definition obj_get :: "obj \<Rightarrow> string \<Rightarrow> jsval" where
  "obj_get ob k =
     (case map_of ob k of
        Some v \<Rightarrow> v
      | None \<Rightarrow> if k \<in> set protoMembers then Builtin k else Undefined)"

text \<open>
  \<^verbatim>\<open>o[k] = v\<close>: an existing property keeps its place, a new one goes last. Without an
  own property \<^verbatim>\<open>__proto__\<close> the write \<^verbatim>\<open>o["__proto__"] = v\<close> creates none.
\<close>

definition obj_set :: "obj \<Rightarrow> string \<Rightarrow> jsval \<Rightarrow> obj" where
  "obj_set ob k v =
     (if k = ''__proto__'' \<and> map_of ob k = None then ob else AList.update k v ob)"

definition obj_keys :: "obj \<Rightarrow> string list" where
  "obj_keys ob = map fst ob"

text \<open>JavaScript truthiness: \<^verbatim>\<open>!v\<close> is true exactly for the falsy values.\<close>

fun truthy :: "jsval \<Rightarrow> bool" where
  "truthy Undefined = False"
| "truthy Null = False"
| "truthy (Bool b) = b"
| "truthy (Num n) = (n \<noteq> 0)"
| "truthy NaN = False"
| "truthy (Str s) = (s \<noteq> [])"
| "truthy (Builtin k) = True"

subsection \<open>String operations\<close>

definition isWhiteSpace :: "char \<Rightarrow> bool" where
  "isWhiteSpace c =
     (c = CHR 0x09 \<or> c = CHR 0x0A \<or> c = CHR 0x0B \<or> c = CHR 0x0C \<or> c = CHR 0x0D \<or> c = CHR 0x20)"

definition trim :: "string \<Rightarrow> string" where
  "trim s = rev (dropWhile isWhiteSpace (rev (dropWhile isWhiteSpace s)))"

definition lowerChar :: "char \<Rightarrow> char" where
  "lowerChar c =
     (let n = (of_char c :: nat) in if 65 \<le> n \<and> n \<le> 90 then char_of (n + 32) else c)"

definition upperChar :: "char \<Rightarrow> char" where
  "upperChar c =
     (let n = (of_char c :: nat) in if 97 \<le> n \<and> n \<le> 122 then char_of (n - 32) else c)"

definition toLowerCase :: "string \<Rightarrow> string" where
  "toLowerCase s = map lowerChar s"

definition toUpperCase :: "string \<Rightarrow> string" where
  "toUpperCase s = map upperChar s"

text \<open>
  \<^verbatim>\<open>String(v)\<close>. On a built-in function the text is the engine's; the one of V8 is
  taken. The program never converts one: it converts the \<^verbatim>\<open>MPN\<close> value only, and
  \<^verbatim>\<open>MPN\<close> is no member of \<^verbatim>\<open>Object.prototype\<close>.
\<close>

definition digitChar :: "nat \<Rightarrow> char" where
  "digitChar d = char_of (48 + d)"

function natToString :: "nat \<Rightarrow> string" where
  "natToString n =
     (if n < 10 then [digitChar n] else natToString (n div 10) @ [digitChar (n mod 10)])"
  by pat_completeness auto
termination
  by (relation "measure (\<lambda>n. n)") auto

declare natToString.simps [simp del]

fun toString :: "jsval \<Rightarrow> string" where
  "toString Undefined = ''undefined''"
| "toString Null = ''null''"
| "toString (Bool b) = (if b then ''true'' else ''false'')"
| "toString (Num n) = (if n < 0 then CHR ''-'' # natToString (nat (- n)) else natToString (nat n))"
| "toString NaN = ''NaN''"
| "toString (Str s) = s"
| "toString (Builtin k) =
     (if k = ''__proto__'' then ''[object Object]''
      else ''function '' @ k @ ''() { [native code] }'')"

section \<open>Header canonicalisation: \<^verbatim>\<open>getMasterKey\<close>\<close>

text \<open>The alias table \<^verbatim>\<open>mapping\<close> (main.js, lines 241 to 254), in declaration order.\<close>

definition mapping :: "(string \<times> string list) list" where
  "mapping =
    [(''MPN'', [''Mfr Part Number'', ''BOM: Matched MPN'', ''Mrf#'', ''MPN'', ''Part Number'', ''LCSC#'']),
     (''Manufacturer'', [''Manufacturer Name'', ''BOM: Manufacturer Name'', ''Mfr.'']),
     (''Description'', [''Description'', ''BOM: Description'']),
     (''Required Qty'', [''Quantity 1'', ''BOM: Requested Qty'', ''Quantity'']),
     (''Unit Price'', [''Unit Price 1 (EUR)'', ''BOM: Unit Price($)'', ''Unit Price(USD)'']),
     (''Total Price'', [''Order Unit Price (EUR)'', ''BOM: Total Line Price($)'', ''Ext.Price(USD)'']),
     (''Stock Status'', [''Availability'', ''BOM: Stock Status'', ''Stock Status'']),
     (''Quantity Avail.'', [''BOM: Stock Availability'', ''Availability'']),
     (''Lead Time'', [''Lead Time in Days'', ''BOM: Mfg Lead Time (weeks)'', ''Target Lead Time'']),
     (''Min/Mult (MOQ)'', [''Min./Mult.'', ''Min / Mult'']),
     (''Datasheet'', [''Datasheet URL'']),
     (''Product Link'', [''Product Link''])]"

text \<open>
  The loop of \<^verbatim>\<open>getMasterKey\<close> over \<^verbatim>\<open>Object.entries(mapping)\<close>: the first entry one
  of whose candidates equals the cleaned header, after
  \<^verbatim>\<open>c.toLowerCase().trim()\<close>, returns its master key.
\<close>

fun getMasterKey_loop :: "(string \<times> string list) list \<Rightarrow> string \<Rightarrow> string option" where
  "getMasterKey_loop [] cleanHeader = None"
| "getMasterKey_loop ((master, candidates) # rest) cleanHeader =
     (if list_ex (\<lambda>c. trim (toLowerCase c) = cleanHeader) candidates then Some master
      else getMasterKey_loop rest cleanHeader)"

text \<open>
  A candidate list has an alias of the header \<open>h\<close>: the test of line 260, with
  \<^verbatim>\<open>cleanHeader\<close> of line 258 written out.
\<close>

abbreviation matchesAlias :: "string \<Rightarrow> string list \<Rightarrow> bool" where
  "matchesAlias h candidates \<equiv> list_ex (\<lambda>c. trim (toLowerCase c) = trim (toLowerCase h)) candidates"

text \<open>\<^verbatim>\<open>getMasterKey\<close> with the table it closes over as a parameter.\<close>

definition getMasterKey_in :: "(string \<times> string list) list \<Rightarrow> string \<Rightarrow> string" where
  "getMasterKey_in table rawHeader =
     (let cleanHeader = trim (toLowerCase rawHeader)
      in case getMasterKey_loop table cleanHeader of
           Some master \<Rightarrow> master
         | None \<Rightarrow> rawHeader)"

definition getMasterKey :: "string \<Rightarrow> string" where
  "getMasterKey rawHeader = getMasterKey_in mapping rawHeader"

section \<open>The merge engine: \<^verbatim>\<open>normalizeData\<close>\<close>

text \<open>
  Lines 279 to 283: the new row under master keys. Every header of the row, in the
  order \<^verbatim>\<open>Object.keys(row)\<close> gives them, assigns \<^verbatim>\<open>mappedRow[masterKey] = row[header]\<close>.
\<close>

definition mappedRow :: "obj \<Rightarrow> obj" where
  "mappedRow row =
     fold (\<lambda>header acc. obj_set acc (getMasterKey header) (obj_get row header))
       (obj_keys row) []"

text \<open>
  Lines 298 to 302: the fill of the resident record \<^verbatim>\<open>existing\<close> from \<^verbatim>\<open>mappedRow\<close>.
  The source mutates \<^verbatim>\<open>existing\<close> in place; the model returns the record after the loop.
\<close>

definition mergeFill :: "obj \<Rightarrow> obj \<Rightarrow> obj" where
  "mergeFill existing incoming =
     fold (\<lambda>k ex.
            if (obj_get ex k = Undefined \<or> obj_get ex k = Str [])
               \<and> (obj_get incoming k \<noteq> Undefined \<and> obj_get incoming k \<noteq> Str [])
            then obj_set ex k (obj_get incoming k)
            else ex)
       (obj_keys incoming) existing"

text \<open>
  The \<^verbatim>\<open>Map\<close> \<^verbatim>\<open>uniqueMap\<close>: \<^verbatim>\<open>has\<close>, \<^verbatim>\<open>get\<close> and \<^verbatim>\<open>set\<close>. The resident record is an
  object the \<^verbatim>\<open>Map\<close> refers to, so its mutation shows in the entry, which keeps its place:
  the model writes the filled record back under the same key.
\<close>

type_synonym umap = "(string \<times> obj) list"

definition map_has :: "umap \<Rightarrow> string \<Rightarrow> bool" where
  "map_has m k = (map_of m k \<noteq> None)"

definition map_get :: "umap \<Rightarrow> string \<Rightarrow> obj option" where
  "map_get m k = map_of m k"

definition map_set :: "umap \<Rightarrow> string \<Rightarrow> obj \<Rightarrow> umap" where
  "map_set m k v = AList.update k v m"

text \<open>Line 292: \<^verbatim>\<open>String(mpnValue).trim().toUpperCase()\<close>.\<close>

definition keyOf :: "jsval \<Rightarrow> string" where
  "keyOf mpnValue = toUpperCase (trim (toString mpnValue))"

text \<open>
  Lines 277 to 304: the body of \<^verbatim>\<open>data.forEach\<close>, on the state
  \<open>(uniqueMap, nonMpnRows)\<close>.
\<close>

definition forEach_row :: "obj \<Rightarrow> umap \<times> obj list \<Rightarrow> umap \<times> obj list" where
  "forEach_row row st =
     (case st of (uniqueMap, nonMpnRows) \<Rightarrow>
        let mapped = mappedRow row;
            mpnValue = obj_get mapped ''MPN''
        in if \<not> truthy mpnValue then (uniqueMap, nonMpnRows @ [mapped])
           else
             let key = keyOf mpnValue
             in if \<not> map_has uniqueMap key then (map_set uniqueMap key mapped, nonMpnRows)
                else (case map_get uniqueMap key of
                        Some existing \<Rightarrow> (map_set uniqueMap key (mergeFill existing mapped), nonMpnRows)
                      | None \<Rightarrow> (uniqueMap, nonMpnRows)))"

record statistics =
  merged :: int
  total :: int
  original :: int

text \<open>
  The returned object. \<^verbatim>\<open>mpnHeader: null\<close> is \<open>None\<close>; the early return has no
  \<^verbatim>\<open>stats\<close> property, which is \<open>None\<close> too.
\<close>

record normalizeResult =
  normalized :: "obj list"
  mpnHeader :: "string option"
  stats :: "statistics option"

text \<open>
  Lines 238 to 317. \<^verbatim>\<open>firstRowHeaders\<close>, \<^verbatim>\<open>mpnMasterKey\<close> and \<^verbatim>\<open>actualMpnHeader\<close>
  (lines 268 to 272) are computed and never read; they are left out.
\<close>

definition normalizeData :: "obj list \<Rightarrow> normalizeResult" where
  "normalizeData data =
     (if length data = 0 then \<lparr>normalized = [], mpnHeader = None, stats = None\<rparr>
      else
        (case fold forEach_row data ([], []) of (uniqueMap, nonMpnRows) \<Rightarrow>
           let normalized = map snd uniqueMap @ nonMpnRows
           in \<lparr>normalized = normalized,
               mpnHeader = Some ''MPN'',
               stats = Some \<lparr>merged = int (length data) - int (length normalized),
                             total = int (length normalized),
                             original = int (length data)\<rparr>\<rparr>))"

section \<open>The condensed projection: \<^verbatim>\<open>generateCondensedData\<close>\<close>

text \<open>Lines 141 to 151, in declaration order: master key, display name.\<close>

definition importantMap :: "(string \<times> string) list" where
  "importantMap =
    [(''Manufacturer'', ''Manufacturer''),
     (''MPN'', ''MPN''),
     (''Min/Mult (MOQ)'', ''Min / Mult (MOQ)''),
     (''Unit Price'', ''Unit Price''),
     (''Stock Status'', ''Stock Status''),
     (''Quantity Avail.'', ''Quantity Avail.''),
     (''Description'', ''Description''),
     (''Datasheet'', ''Datasheet''),
     (''Product Link'', ''Product Link'')]"

text \<open>\<^verbatim>\<open>a || b\<close> on values.\<close>

definition js_or :: "jsval \<Rightarrow> jsval \<Rightarrow> jsval" where
  "js_or a b = (if truthy a then a else b)"

text \<open>Lines 153 to 158: the callback of \<^verbatim>\<open>data.map\<close>.\<close>

definition condenseRow :: "obj \<Rightarrow> obj" where
  "condenseRow row =
     fold (\<lambda>(masterKey, displayName) newRow.
             obj_set newRow displayName (js_or (obj_get row masterKey) (Str [])))
       importantMap []"

definition generateCondensedData :: "obj list \<Rightarrow> obj list" where
  "generateCondensedData data = map condenseRow data"

section \<open>Notions the statements use\<close>

text \<open>The value \<^verbatim>\<open>mpnValue\<close> of line 285 for a raw row.\<close>

abbreviation mpnValueOf :: "obj \<Rightarrow> jsval" where
  "mpnValueOf row \<equiv> obj_get (mappedRow row) ''MPN''"

text \<open>
  The two accumulators when \<^verbatim>\<open>data.forEach\<close> has run over \<open>data\<close>: the entries of
  \<^verbatim>\<open>uniqueMap\<close>, whose values are group (a) of the output, and \<^verbatim>\<open>nonMpnRows\<close>, group (b).
\<close>

definition uniqueMapAfter :: "obj list \<Rightarrow> umap" where
  "uniqueMapAfter data = fst (fold forEach_row data ([], []))"

definition nonMpnRowsAfter :: "obj list \<Rightarrow> obj list" where
  "nonMpnRowsAfter data = snd (fold forEach_row data ([], []))"

text \<open>A value that is a string of one or more characters, all of them white space.\<close>

fun whitespaceOnly :: "jsval \<Rightarrow> bool" where
  "whitespaceOnly (Str s) = (s \<noteq> [] \<and> trim s = [])"
| "whitespaceOnly v = False"

text \<open>
  A falsy value that is neither \<^verbatim>\<open>undefined\<close> nor the empty string: the number 0,
  \<^verbatim>\<open>false\<close>, \<^verbatim>\<open>null\<close>, \<open>NaN\<close>.
\<close>

definition falsyNonEmpty :: "jsval \<Rightarrow> bool" where
  "falsyNonEmpty v = (\<not> truthy v \<and> v \<noteq> Undefined \<and> v \<noteq> Str [])"

text \<open>
  The IdentityKey of the specification (its sections 3, 4.3 and 8), written from the
  specification's words and not from the code: the \<^verbatim>\<open>MPN\<close> value trimmed and
  upper-cased; an absent \<^verbatim>\<open>MPN\<close>, an empty one and one that is empty after trimming have
  no identity. Every other value has one: the number 0 has the identity \<^verbatim>\<open>"0"\<close>.
\<close>

definition identityKey :: "obj \<Rightarrow> string option" where
  "identityKey canonical =
     (let v = obj_get canonical ''MPN''
      in if v = Undefined then None
         else if trim (toString v) = [] then None
         else Some (toUpperCase (trim (toString v))))"

text \<open>
  The alias table with every alias lower-cased and trimmed already, and the loop of
  \<^verbatim>\<open>getMasterKey\<close> on such a table. They serve evaluation only: \<open>getMasterKey_clean\<close>
  below proves that they compute \<^verbatim>\<open>getMasterKey\<close>.
\<close>

definition cleanTable :: "(string \<times> string list) list" where
  "cleanTable =
    [(''MPN'', [''mfr part number'', ''bom: matched mpn'', ''mrf#'', ''mpn'', ''part number'', ''lcsc#'']),
     (''Manufacturer'', [''manufacturer name'', ''bom: manufacturer name'', ''mfr.'']),
     (''Description'', [''description'', ''bom: description'']),
     (''Required Qty'', [''quantity 1'', ''bom: requested qty'', ''quantity'']),
     (''Unit Price'', [''unit price 1 (eur)'', ''bom: unit price($)'', ''unit price(usd)'']),
     (''Total Price'', [''order unit price (eur)'', ''bom: total line price($)'', ''ext.price(usd)'']),
     (''Stock Status'', [''availability'', ''bom: stock status'', ''stock status'']),
     (''Quantity Avail.'', [''bom: stock availability'', ''availability'']),
     (''Lead Time'', [''lead time in days'', ''bom: mfg lead time (weeks)'', ''target lead time'']),
     (''Min/Mult (MOQ)'', [''min./mult.'', ''min / mult'']),
     (''Datasheet'', [''datasheet url'']),
     (''Product Link'', [''product link''])]"

fun lookupClean :: "(string \<times> string list) list \<Rightarrow> string \<Rightarrow> string option" where
  "lookupClean [] cleanHeader = None"
| "lookupClean ((master, cleaned) # rest) cleanHeader =
     (if cleanHeader \<in> set cleaned then Some master else lookupClean rest cleanHeader)"

section \<open>Properties of objects\<close>

lemma proto_member: "''__proto__'' \<in> set protoMembers"
  by (simp add: protoMembers_def)

text \<open>Reading after a write, at a key other than \<^verbatim>\<open>__proto__\<close>.\<close>

lemma obj_get_set:
  "k' \<noteq> ''__proto__'' \<Longrightarrow>
   obj_get (obj_set ob k v) k' = (if k' = k then v else obj_get ob k')"
  by (simp add: obj_get_def obj_set_def update_conv')

text \<open>
  Reading after the write of the merge, which happens only where the read gave
  \<^verbatim>\<open>undefined\<close> or the empty string, so where no inherited member was found.
\<close>

lemma obj_get_set_blank:
  assumes "obj_get ob k = Undefined \<or> obj_get ob k = Str []"
  shows "obj_get (obj_set ob k v) k' = (if k' = k then v else obj_get ob k')"
proof (cases "k = ''__proto__'' \<and> map_of ob k = None")
  case True
  then have k: "k = ''__proto__''" and n: "map_of ob k = None" by blast+
  from n proto_member have "obj_get ob k = Builtin k"
    unfolding obj_get_def k by simp
  with assms show ?thesis by simp
next
  case False
  then have "obj_set ob k v = AList.update k v ob"
    by (auto simp: obj_set_def)
  then show ?thesis
    by (simp add: obj_get_def update_conv')
qed

lemma obj_keys_set:
  "obj_keys (obj_set ob k v) =
     (if k \<in> set (obj_keys ob) \<or> k = ''__proto__'' then obj_keys ob else obj_keys ob @ [k])"
  by (auto simp: obj_keys_def obj_set_def update_keys map_of_eq_None_iff)

lemma obj_get_absent:
  "k \<notin> set (obj_keys ob) \<Longrightarrow>
   obj_get ob k = (if k \<in> set protoMembers then Builtin k else Undefined)"
proof -
  assume "k \<notin> set (obj_keys ob)"
  then have "map_of ob k = None"
    by (simp add: obj_keys_def map_of_eq_None_iff)
  then show ?thesis by (simp add: obj_get_def)
qed

lemma obj_get_present:
  "k \<in> set (obj_keys ob) \<Longrightarrow> \<exists>v. map_of ob k = Some v \<and> obj_get ob k = v"
proof -
  assume "k \<in> set (obj_keys ob)"
  then have "map_of ob k \<noteq> None"
    by (simp add: obj_keys_def map_of_eq_None_iff)
  then show ?thesis by (auto simp: obj_get_def)
qed

lemma obj_get_nth:
  assumes "distinct (obj_keys ob)" and "i < length ob"
  shows "obj_get ob (fst (ob ! i)) = snd (ob ! i)"
proof -
  from assms(2) have "(fst (ob ! i), snd (ob ! i)) \<in> set ob"
    by simp
  with assms(1) have "map_of ob (fst (ob ! i)) = Some (snd (ob ! i))"
    by (simp add: obj_keys_def)
  then show ?thesis by (simp add: obj_get_def)
qed


section \<open>Properties of the header canonicaliser\<close>

lemma cleanTable_eq:
  "map (\<lambda>(master, candidates). (master, map (\<lambda>c. trim (toLowerCase c)) candidates)) mapping
     = cleanTable"
  by code_simp

lemma loop_lookupClean:
  "getMasterKey_loop table c =
     lookupClean
       (map (\<lambda>(master, candidates). (master, map (\<lambda>c. trim (toLowerCase c)) candidates)) table) c"
  by (induction table c rule: getMasterKey_loop.induct) (auto simp: list_ex_iff)

lemma getMasterKey_clean [code]:
  "getMasterKey rawHeader =
     (case lookupClean cleanTable (trim (toLowerCase rawHeader)) of
        Some master \<Rightarrow> master
      | None \<Rightarrow> rawHeader)"
  by (simp add: getMasterKey_def getMasterKey_in_def loop_lookupClean cleanTable_eq)

lemma loop_None_iff:
  "getMasterKey_loop table c = None \<longleftrightarrow>
     (\<forall>e \<in> set table. \<not> list_ex (\<lambda>a. trim (toLowerCase a) = c) (snd e))"
  by (induction table c rule: getMasterKey_loop.induct) auto

lemma loop_Some_mem:
  "getMasterKey_loop table c = Some m \<Longrightarrow>
     \<exists>cs. (m, cs) \<in> set table \<and> list_ex (\<lambda>a. trim (toLowerCase a) = c) cs"
  by (induction table c rule: getMasterKey_loop.induct) (auto split: if_splits)

lemma loop_first:
  "i < length table \<Longrightarrow> list_ex (\<lambda>a. trim (toLowerCase a) = c) (snd (table ! i)) \<Longrightarrow>
   (\<forall>l<i. \<not> list_ex (\<lambda>a. trim (toLowerCase a) = c) (snd (table ! l))) \<Longrightarrow>
   getMasterKey_loop table c = Some (fst (table ! i))"
proof (induction table c arbitrary: i rule: getMasterKey_loop.induct)
  case (1 cleanHeader)
  then show ?case by simp
next
  case (2 master candidates rest cleanHeader)
  show ?case
  proof (cases i)
    case 0
    with "2.prems" show ?thesis by simp
  next
    case (Suc n)
    with "2.prems" have nohead: "\<not> list_ex (\<lambda>a. trim (toLowerCase a) = cleanHeader) candidates"
      by (metis zero_less_Suc nth_Cons_0 snd_conv)
    from "2.prems" Suc have n: "n < length rest"
      and mn: "list_ex (\<lambda>a. trim (toLowerCase a) = cleanHeader) (snd (rest ! n))"
      by simp_all
    from "2.prems"(3) Suc
    have "\<forall>l<n. \<not> list_ex (\<lambda>a. trim (toLowerCase a) = cleanHeader) (snd (rest ! l))"
      by (metis Suc_less_eq nth_Cons_Suc)
    with "2.IH"[OF nohead n mn] have "getMasterKey_loop rest cleanHeader = Some (fst (rest ! n))"
      by simp
    with nohead Suc show ?thesis by simp
  qed
qed

lemma getMasterKey_in_first:
  "i < length table \<Longrightarrow> matchesAlias h (snd (table ! i)) \<Longrightarrow>
   (\<forall>l<i. \<not> matchesAlias h (snd (table ! l))) \<Longrightarrow>
   getMasterKey_in table h = fst (table ! i)"
  by (simp add: getMasterKey_in_def loop_first)

lemma getMasterKey_in_cases:
  "(getMasterKey_in table h = h \<and> (\<forall>e \<in> set table. \<not> matchesAlias h (snd e)))
   \<or> (\<exists>cs. (getMasterKey_in table h, cs) \<in> set table \<and> matchesAlias h cs)"
proof (cases "getMasterKey_loop table (trim (toLowerCase h))")
  case None
  then have "\<forall>e \<in> set table. \<not> matchesAlias h (snd e)"
    by (simp add: loop_None_iff)
  with None show ?thesis
    by (simp add: getMasterKey_in_def)
next
  case (Some m)
  from loop_Some_mem[OF Some] Some show ?thesis
    by (simp add: getMasterKey_in_def)
qed

lemma ex_first:
  fixes P :: "nat \<Rightarrow> bool"
  assumes "P i"
  shows "\<exists>k\<le>i. P k \<and> (\<forall>l<k. \<not> P l)"
proof -
  have "P (LEAST k. P k)" using assms by (rule LeastI)
  moreover have "(LEAST k. P k) \<le> i" using assms by (rule Least_le)
  moreover have "\<forall>l<(LEAST k. P k). \<not> P l" using not_less_Least by blast
  ultimately show ?thesis by blast
qed

text \<open>
  Claim C6. \<^verbatim>\<open>getMasterKey\<close> is a function of the header alone, defined on every string:
  when some field of the table has an alias of the header (equal after lower-casing and
  trimming), the result is a field of the table that has one; when no field has, the
  result is the header itself, unmodified. In particular \<^verbatim>\<open>" mfr.  "\<close> and \<^verbatim>\<open>"MFR."\<close>
  both give \<^verbatim>\<open>"Manufacturer"\<close>, and the empty header gives the empty header.
\<close>

theorem getMasterKey_canonical:
  "((\<exists>m cs. (m, cs) \<in> set mapping \<and> matchesAlias h cs) \<longrightarrow>
      (\<exists>cs. (getMasterKey h, cs) \<in> set mapping \<and> matchesAlias h cs))
   \<and> ((\<forall>m cs. (m, cs) \<in> set mapping \<longrightarrow> \<not> matchesAlias h cs) \<longrightarrow> getMasterKey h = h)
   \<and> getMasterKey '' mfr.  '' = ''Manufacturer''
   \<and> getMasterKey ''MFR.'' = ''Manufacturer''
   \<and> getMasterKey [] = []"
proof -
  have a: "(\<exists>m cs. (m, cs) \<in> set mapping \<and> matchesAlias h cs) \<longrightarrow>
      (\<exists>cs. (getMasterKey h, cs) \<in> set mapping \<and> matchesAlias h cs)"
    using getMasterKey_in_cases[of mapping h] unfolding getMasterKey_def by fastforce
  have b: "(\<forall>m cs. (m, cs) \<in> set mapping \<longrightarrow> \<not> matchesAlias h cs) \<longrightarrow> getMasterKey h = h"
    using getMasterKey_in_cases[of mapping h] unfolding getMasterKey_def by fastforce
  have c: "getMasterKey '' mfr.  '' = ''Manufacturer''" by code_simp
  have d: "getMasterKey ''MFR.'' = ''Manufacturer''" by code_simp
  have e: "getMasterKey [] = []" by code_simp
  from a b c d e show ?thesis by blast
qed

theorem getMasterKey_canonical_witness:
  "(''Manufacturer'', [''Manufacturer Name'', ''BOM: Manufacturer Name'', ''Mfr.'']) \<in> set mapping
   \<and> matchesAlias ''MFR.'' [''Manufacturer Name'', ''BOM: Manufacturer Name'', ''Mfr.'']
   \<and> (\<exists>cs. (getMasterKey ''MFR.'', cs) \<in> set mapping \<and> matchesAlias ''MFR.'' cs)
   \<and> list_all (\<lambda>e. \<not> matchesAlias ''Colour'' (snd e)) mapping
   \<and> getMasterKey ''Colour'' = ''Colour''"
proof -
  have m: "(''Manufacturer'', [''Manufacturer Name'', ''BOM: Manufacturer Name'', ''Mfr.'']) \<in> set mapping"
    by (simp add: mapping_def)
  have a: "matchesAlias ''MFR.'' [''Manufacturer Name'', ''BOM: Manufacturer Name'', ''Mfr.'']"
    by code_simp
  have n: "list_all (\<lambda>e. \<not> matchesAlias ''Colour'' (snd e)) mapping"
    by code_simp
  then have n': "\<forall>m cs. (m, cs) \<in> set mapping \<longrightarrow> \<not> matchesAlias ''Colour'' cs"
    by (auto simp: list_all_iff)
  from m a have "\<exists>m cs. (m, cs) \<in> set mapping \<and> matchesAlias ''MFR.'' cs" by blast
  with getMasterKey_canonical[of "''MFR.''"]
  have r1: "\<exists>cs. (getMasterKey ''MFR.'', cs) \<in> set mapping \<and> matchesAlias ''MFR.'' cs" by blast
  from n' getMasterKey_canonical[of "''Colour''"]
  have r2: "getMasterKey ''Colour'' = ''Colour''" by blast
  from m a r1 n r2 show ?thesis by blast
qed

text \<open>
  Claim C7. First match wins. In any alias table, when the header has an alias in the
  entries \<open>i\<close> and \<open>j\<close> with \<open>i < j\<close>, the result is the field of the first entry that
  has one, which is at or before \<open>i\<close>; it is entry \<open>i\<close> itself when nothing before \<open>i\<close>
  matches, and it is never the field of entry \<open>j\<close> (field names being distinct). In the
  shipped table \<^verbatim>\<open>"Availability"\<close> is an alias of \<^verbatim>\<open>Stock Status\<close> (entry 6) and of
  \<^verbatim>\<open>Quantity Avail.\<close> (entry 7), and \<^verbatim>\<open>getMasterKey\<close> returns \<^verbatim>\<open>Stock Status\<close>.
\<close>

theorem first_match_priority:
  "(i < j \<and> j < length table \<and> matchesAlias h (snd (table ! i)) \<and> matchesAlias h (snd (table ! j))
      \<longrightarrow> (\<exists>k\<le>i. getMasterKey_in table h = fst (table ! k) \<and> matchesAlias h (snd (table ! k))
                    \<and> (\<forall>l<k. \<not> matchesAlias h (snd (table ! l)))))
   \<and> (i < j \<and> j < length table \<and> matchesAlias h (snd (table ! i)) \<and> matchesAlias h (snd (table ! j))
        \<and> (\<forall>l<i. \<not> matchesAlias h (snd (table ! l)))
      \<longrightarrow> getMasterKey_in table h = fst (table ! i))
   \<and> (i < j \<and> j < length table \<and> matchesAlias h (snd (table ! i)) \<and> distinct (map fst table)
      \<longrightarrow> getMasterKey_in table h \<noteq> fst (table ! j))
   \<and> matchesAlias ''Availability'' (snd (mapping ! 6)) \<and> fst (mapping ! 6) = ''Stock Status''
   \<and> matchesAlias ''Availability'' (snd (mapping ! 7)) \<and> fst (mapping ! 7) = ''Quantity Avail.''
   \<and> getMasterKey ''Availability'' = ''Stock Status''"
proof -
  have first: "\<exists>k\<le>i. getMasterKey_in table h = fst (table ! k) \<and> matchesAlias h (snd (table ! k))
                    \<and> (\<forall>l<k. \<not> matchesAlias h (snd (table ! l)))"
    if "i < length table" and "matchesAlias h (snd (table ! i))" for i
  proof -
    from ex_first[of "\<lambda>k. matchesAlias h (snd (table ! k))" i] that(2)
    obtain k where k: "k \<le> i" "matchesAlias h (snd (table ! k))"
      "\<forall>l<k. \<not> matchesAlias h (snd (table ! l))" by blast
    with that(1) have "getMasterKey_in table h = fst (table ! k)"
      by (intro getMasterKey_in_first) auto
    with k show ?thesis by blast
  qed
  have a: "i < j \<and> j < length table \<and> matchesAlias h (snd (table ! i)) \<and> matchesAlias h (snd (table ! j))
      \<longrightarrow> (\<exists>k\<le>i. getMasterKey_in table h = fst (table ! k) \<and> matchesAlias h (snd (table ! k))
                    \<and> (\<forall>l<k. \<not> matchesAlias h (snd (table ! l))))"
    using first[of i] by simp
  have b: "i < j \<and> j < length table \<and> matchesAlias h (snd (table ! i)) \<and> matchesAlias h (snd (table ! j))
        \<and> (\<forall>l<i. \<not> matchesAlias h (snd (table ! l)))
      \<longrightarrow> getMasterKey_in table h = fst (table ! i)"
    by (simp add: getMasterKey_in_first)
  have c: "i < j \<and> j < length table \<and> matchesAlias h (snd (table ! i)) \<and> distinct (map fst table)
      \<longrightarrow> getMasterKey_in table h \<noteq> fst (table ! j)"
  proof (intro impI, elim conjE)
    assume ij: "i < j" and j: "j < length table" and mi: "matchesAlias h (snd (table ! i))"
      and d: "distinct (map fst table)"
    from first[of i] ij j mi obtain k where k: "k \<le> i" "getMasterKey_in table h = fst (table ! k)"
      by auto
    from k(1) ij j have kj: "k < length (map fst table)" "j < length (map fst table)" "k \<noteq> j"
      by auto
    from nth_eq_iff_index_eq[OF d kj(1) kj(2)] kj
    have "fst (table ! k) \<noteq> fst (table ! j)" by simp
    with k show "getMasterKey_in table h \<noteq> fst (table ! j)" by simp
  qed
  have d: "matchesAlias ''Availability'' (snd (mapping ! 6))" by code_simp
  have e: "fst (mapping ! 6) = ''Stock Status''" by code_simp
  have f: "matchesAlias ''Availability'' (snd (mapping ! 7))" by code_simp
  have g: "fst (mapping ! 7) = ''Quantity Avail.''" by code_simp
  have h: "getMasterKey ''Availability'' = ''Stock Status''" by code_simp
  from a b c d e f g h show ?thesis by blast
qed

theorem first_match_priority_witness:
  "(6::nat) < 7 \<and> 7 < length mapping
   \<and> matchesAlias ''Availability'' (snd (mapping ! 6))
   \<and> matchesAlias ''Availability'' (snd (mapping ! 7))
   \<and> list_all (\<lambda>l. \<not> matchesAlias ''Availability'' (snd (mapping ! l))) [0..<6]
   \<and> distinct (map fst mapping)
   \<and> getMasterKey_in mapping ''Availability'' = fst (mapping ! 6)
   \<and> getMasterKey_in mapping ''Availability'' \<noteq> fst (mapping ! 7)"
proof -
  have l: "(7::nat) < length mapping" by code_simp
  have a: "matchesAlias ''Availability'' (snd (mapping ! 6))" by code_simp
  have b: "matchesAlias ''Availability'' (snd (mapping ! 7))" by code_simp
  have c': "list_all (\<lambda>l. \<not> matchesAlias ''Availability'' (snd (mapping ! l))) [0..<6]"
    by code_simp
  then have c: "\<forall>l<6. \<not> matchesAlias ''Availability'' (snd (mapping ! l))"
    by (simp add: list_all_iff)
  have d: "distinct (map fst mapping)" by code_simp
  have s: "(6::nat) < 7" by simp
  from first_match_priority[of 6 7 mapping "''Availability''"] s l a b c
  have r1: "getMasterKey_in mapping ''Availability'' = fst (mapping ! 6)" by blast
  from first_match_priority[of 6 7 mapping "''Availability''"] s l a d
  have r2: "getMasterKey_in mapping ''Availability'' \<noteq> fst (mapping ! 7)" by blast
  from s l a b c' d r1 r2 show ?thesis by blast
qed

section \<open>Properties of the row mapper\<close>

lemma getMasterKey_field_or_same:
  "getMasterKey h = h \<or> getMasterKey h \<in> fst ` set mapping"
  using getMasterKey_in_cases[of mapping h] unfolding getMasterKey_def
  by (auto intro: rev_image_eqI)

lemma proto_no_field: "''__proto__'' \<notin> fst ` set mapping"
  by (simp add: mapping_def)

lemma mappedRow_fold_last:
  assumes "f \<noteq> ''__proto__''"
  shows "j < length hs \<Longrightarrow> getMasterKey (hs ! j) = f \<Longrightarrow>
   (\<forall>l. j < l \<and> l < length hs \<longrightarrow> getMasterKey (hs ! l) \<noteq> f) \<Longrightarrow>
   obj_get (fold (\<lambda>header acc. obj_set acc (getMasterKey header) (obj_get row header)) hs acc0) f
     = obj_get row (hs ! j)"
proof (induction hs rule: rev_induct)
  case Nil
  then show ?case by simp
next
  case (snoc h hs)
  show ?case
  proof (cases "j = length hs")
    case True
    with snoc.prems(2) show ?thesis
      by (simp add: obj_get_set[OF assms])
  next
    case False
    with snoc.prems(1) have j: "j < length hs" by simp
    from snoc.prems(3) j have "getMasterKey h \<noteq> f"
      by (metis length_append_singleton lessI nth_append_length)
    moreover from snoc.prems(2) j have "getMasterKey (hs ! j) = f"
      by (simp add: nth_append)
    moreover from snoc.prems(3)
    have "\<forall>l. j < l \<and> l < length hs \<longrightarrow> getMasterKey (hs ! l) \<noteq> f"
      by (metis length_append_singleton less_Suc_eq nth_append)
    ultimately show ?thesis
      using snoc.IH j by (simp add: obj_get_set[OF assms] nth_append)
  qed
qed

text \<open>
  Claim C9. Within one raw record, whose headers are distinct, let the headers at
  positions \<open>i < j\<close> of the enumeration order have the same master key, and let no header
  after \<open>j\<close> have it. Then the mapped row holds, under that master key, the value of the
  header at \<open>j\<close>: the later header wins.
\<close>

theorem later_header_wins:
  assumes "distinct (obj_keys row)"
    and "i < j" and "j < length row"
    and "getMasterKey (fst (row ! i)) = getMasterKey (fst (row ! j))"
    and "\<forall>l. j < l \<and> l < length row \<longrightarrow> getMasterKey (fst (row ! l)) \<noteq> getMasterKey (fst (row ! j))"
  shows "obj_get (mappedRow row) (getMasterKey (fst (row ! j))) = snd (row ! j)"
proof -
  from assms(3) have j: "j < length (obj_keys row)"
    by (simp add: obj_keys_def)
  from assms(3) have nth: "\<And>l. l < length row \<Longrightarrow> obj_keys row ! l = fst (row ! l)"
    by (simp add: obj_keys_def)
  have np: "getMasterKey (obj_keys row ! j) \<noteq> ''__proto__''"
  proof
    assume p: "getMasterKey (obj_keys row ! j) = ''__proto__''"
    with nth[OF assms(3)] have pj: "getMasterKey (fst (row ! j)) = ''__proto__''" by simp
    with assms(4) have pi: "getMasterKey (fst (row ! i)) = ''__proto__''" by simp
    from pj getMasterKey_field_or_same[of "fst (row ! j)"] proto_no_field
    have hj: "fst (row ! j) = ''__proto__''" by auto
    from pi getMasterKey_field_or_same[of "fst (row ! i)"] proto_no_field
    have hi: "fst (row ! i) = ''__proto__''" by auto
    from assms(2,3) have i: "i < length (obj_keys row)" by (simp add: obj_keys_def)
    from assms(2,3) hi hj nth have "obj_keys row ! i = obj_keys row ! j" by simp
    with nth_eq_iff_index_eq[OF assms(1) i j] assms(2) show False by simp
  qed
  have "obj_get (mappedRow row) (getMasterKey (obj_keys row ! j)) = obj_get row (obj_keys row ! j)"
    unfolding mappedRow_def
  proof (rule mappedRow_fold_last[OF np j refl])
    show "\<forall>l. j < l \<and> l < length (obj_keys row) \<longrightarrow>
            getMasterKey (obj_keys row ! l) \<noteq> getMasterKey (obj_keys row ! j)"
      using assms(3,5) by (simp add: obj_keys_def)
  qed
  with nth[OF assms(3)] obj_get_nth[OF assms(1) assms(3)] show ?thesis by simp
qed

theorem later_header_wins_witness:
  "distinct (obj_keys [(''Part Number'', Str ''A''), (''Colour'', Str ''red''), (''MPN'', Str ''B'')])
   \<and> getMasterKey ''Part Number'' = ''MPN'' \<and> getMasterKey ''MPN'' = ''MPN''
   \<and> obj_get (mappedRow [(''Part Number'', Str ''A''), (''Colour'', Str ''red''), (''MPN'', Str ''B'')])
        ''MPN'' = Str ''B''"
proof -
  let ?row = "[(''Part Number'', Str ''A''), (''Colour'', Str ''red''), (''MPN'', Str ''B'')]"
  have d: "distinct (obj_keys ?row)" by code_simp
  have a: "getMasterKey ''Part Number'' = ''MPN''" by code_simp
  have b: "getMasterKey ''MPN'' = ''MPN''" by code_simp
  have c: "getMasterKey (fst (?row ! 0)) = getMasterKey (fst (?row ! 2))"
    using a b by simp
  have e: "\<forall>l. 2 < l \<and> l < length ?row \<longrightarrow> getMasterKey (fst (?row ! l)) \<noteq> getMasterKey (fst (?row ! 2))"
    by auto
  from later_header_wins[OF d _ _ c e]
  have "obj_get (mappedRow ?row) (getMasterKey (fst (?row ! 2))) = snd (?row ! 2)" by simp
  with b have r: "obj_get (mappedRow ?row) ''MPN'' = Str ''B''" by simp
  from d a b r show ?thesis by (intro conjI)
qed

section \<open>Properties of the merge\<close>

lemma mergeFill_fold_get:
  "obj_get (fold (\<lambda>k ex.
            if (obj_get ex k = Undefined \<or> obj_get ex k = Str [])
               \<and> (obj_get incoming k \<noteq> Undefined \<and> obj_get incoming k \<noteq> Str [])
            then obj_set ex k (obj_get incoming k)
            else ex) ks existing) f
   = (if f \<in> set ks \<and> (obj_get existing f = Undefined \<or> obj_get existing f = Str [])
         \<and> obj_get incoming f \<noteq> Undefined \<and> obj_get incoming f \<noteq> Str []
      then obj_get incoming f else obj_get existing f)"
proof (induction ks arbitrary: existing)
  case Nil
  then show ?case by simp
next
  case (Cons k ks)
  show ?case
  proof (cases "(obj_get existing k = Undefined \<or> obj_get existing k = Str [])
               \<and> (obj_get incoming k \<noteq> Undefined \<and> obj_get incoming k \<noteq> Str [])")
    case True
    note fills = this
    then have b: "obj_get existing k = Undefined \<or> obj_get existing k = Str []" by simp
    show ?thesis
    proof (cases "k = f")
      case True
      with b have b': "obj_get existing f = Undefined \<or> obj_get existing f = Str []" by simp
      from fills True show ?thesis
        by (auto simp: Cons.IH obj_get_set_blank[OF b'])
    next
      case False
      with fills show ?thesis
        by (auto simp: Cons.IH obj_get_set_blank[OF b])
    qed
  next
    case False
    then show ?thesis
      by (cases "k = f") (auto simp: Cons.IH)
  qed
qed

lemma mergeFill_get:
  "obj_get (mergeFill existing incoming) f
   = (if f \<in> set (obj_keys incoming)
         \<and> (obj_get existing f = Undefined \<or> obj_get existing f = Str [])
         \<and> obj_get incoming f \<noteq> Undefined \<and> obj_get incoming f \<noteq> Str []
      then obj_get incoming f else obj_get existing f)"
  unfolding mergeFill_def by (rule mergeFill_fold_get)

lemma map_get_set: "map_get (map_set m k v) k' = (if k' = k then Some v else map_get m k')"
  by (simp add: map_get_def map_set_def update_conv')

lemma map_set_keys:
  "map fst (map_set m k v) = (if k \<in> set (map fst m) then map fst m else map fst m @ [k])"
  by (simp add: map_set_def update_keys)

lemma map_get_Some_key: "map_get m k = Some v \<Longrightarrow> k \<in> set (map fst m)"
  by (auto simp: map_get_def dest: map_of_SomeD intro: rev_image_eqI)

lemma forEach_row_unkeyed:
  "\<not> truthy (mpnValueOf row) \<Longrightarrow>
   forEach_row row (uniqueMap, nonMpnRows) = (uniqueMap, nonMpnRows @ [mappedRow row])"
  by (simp add: forEach_row_def Let_def)

lemma forEach_row_keyed:
  "truthy (mpnValueOf row) \<Longrightarrow>
   forEach_row row (uniqueMap, nonMpnRows) =
     (map_set uniqueMap (keyOf (mpnValueOf row))
        (case map_get uniqueMap (keyOf (mpnValueOf row)) of
           None \<Rightarrow> mappedRow row
         | Some existing \<Rightarrow> mergeFill existing (mappedRow row)),
      nonMpnRows)"
  by (auto simp: forEach_row_def Let_def map_has_def map_get_def split: option.splits)

text \<open>
  The merge step, in terms of what the code reads. Let a row with a truthy \<^verbatim>\<open>MPN\<close>
  arrive when \<^verbatim>\<open>uniqueMap\<close> already has a resident record under the row's key. After
  the step the resident under that key reads, at every \<open>k\<close>, the incoming value when \<open>k\<close>
  is a field of the incoming record, the resident read \<^verbatim>\<open>undefined\<close> or the empty string
  at \<open>k\<close> and the incoming value is neither; in every other case, also when the incoming
  value differs, it reads what it read before. Nothing else changes: \<^verbatim>\<open>nonMpnRows\<close>,
  the order of the keys and the residents under other keys stay.
\<close>

lemma forEach_row_merge_reads:
  assumes "truthy (mpnValueOf row)"
    and "map_get uniqueMap (keyOf (mpnValueOf row)) = Some existing"
    and "forEach_row row (uniqueMap, nonMpnRows) = (uniqueMap', nonMpnRows')"
  shows "nonMpnRows' = nonMpnRows \<and> map fst uniqueMap' = map fst uniqueMap
         \<and> (\<forall>key. key \<noteq> keyOf (mpnValueOf row) \<longrightarrow> map_get uniqueMap' key = map_get uniqueMap key)
         \<and> (\<exists>existing'. map_get uniqueMap' (keyOf (mpnValueOf row)) = Some existing'
              \<and> (\<forall>k. obj_get existing' k =
                  (if k \<in> set (obj_keys (mappedRow row))
                      \<and> (obj_get existing k = Undefined \<or> obj_get existing k = Str [])
                      \<and> obj_get (mappedRow row) k \<noteq> Undefined \<and> obj_get (mappedRow row) k \<noteq> Str []
                   then obj_get (mappedRow row) k
                   else obj_get existing k)))"
proof -
  from assms have u: "uniqueMap' = map_set uniqueMap (keyOf (mpnValueOf row)) (mergeFill existing (mappedRow row))"
    and n: "nonMpnRows' = nonMpnRows"
    by (simp_all add: forEach_row_keyed)
  from u map_get_Some_key[OF assms(2)] have k: "map fst uniqueMap' = map fst uniqueMap"
    by (simp add: map_set_keys)
  from u have o: "\<forall>key. key \<noteq> keyOf (mpnValueOf row) \<longrightarrow> map_get uniqueMap' key = map_get uniqueMap key"
    by (simp add: map_get_set)
  from u have "map_get uniqueMap' (keyOf (mpnValueOf row)) = Some (mergeFill existing (mappedRow row))"
    by (simp add: map_get_set)
  then have "\<exists>existing'. map_get uniqueMap' (keyOf (mpnValueOf row)) = Some existing'
              \<and> (\<forall>k. obj_get existing' k =
                  (if k \<in> set (obj_keys (mappedRow row))
                      \<and> (obj_get existing k = Undefined \<or> obj_get existing k = Str [])
                      \<and> obj_get (mappedRow row) k \<noteq> Undefined \<and> obj_get (mappedRow row) k \<noteq> Str []
                   then obj_get (mappedRow row) k
                   else obj_get existing k))"
    by (simp add: mergeFill_get)
  with n k o show ?thesis by (intro conjI)
qed

text \<open>
  A field that the resident lacks is filled when its name is no member of
  \<^verbatim>\<open>Object.prototype\<close>, and is not filled when it is one: there the read of line 299
  finds the inherited member, which is neither \<^verbatim>\<open>undefined\<close> nor the empty string.
\<close>

lemma mergeFill_absent_field:
  assumes "k \<in> set (obj_keys incoming)" and "k \<notin> set (obj_keys existing)"
    and "obj_get incoming k \<noteq> Undefined" and "obj_get incoming k \<noteq> Str []"
  shows "obj_get (mergeFill existing incoming) k =
           (if k \<in> set protoMembers then Builtin k else obj_get incoming k)"
  using assms by (simp add: mergeFill_get obj_get_absent)

text \<open>
  Claim C1 does not hold of the code at a field named like a member of
  \<^verbatim>\<open>Object.prototype\<close>. The resident \<^verbatim>\<open>{MPN: "X"}\<close> has no field \<^verbatim>\<open>constructor\<close>, and the
  incoming record of the same key has \<^verbatim>\<open>constructor: "c"\<close>, so the claim has the resident
  take \<^verbatim>\<open>"c"\<close>. Line 299 reads \<^verbatim>\<open>existing["constructor"]\<close> through the prototype chain and
  finds the function \<^verbatim>\<open>Object\<close>, which is neither \<^verbatim>\<open>undefined\<close> nor \<^verbatim>\<open>""\<close>: the field is not
  copied and the output record is \<^verbatim>\<open>{MPN: "X"}\<close>. At every other field the merge is as
  the claim says: see \<open>forEach_row_merge_reads\<close> and \<open>mergeFill_absent_field\<close>.
\<close>

theorem merge_skips_prototype_named_field:
  "''constructor'' \<in> set (obj_keys (mappedRow [(''MPN'', Str ''x''), (''constructor'', Str ''c'')]))
   \<and> obj_get (mappedRow [(''MPN'', Str ''x''), (''constructor'', Str ''c'')]) ''constructor'' = Str ''c''
   \<and> obj_keys (mappedRow [(''MPN'', Str ''X'')]) = [''MPN'']
   \<and> obj_get (mappedRow [(''MPN'', Str ''X'')]) ''constructor'' = Builtin ''constructor''
   \<and> keyOf (mpnValueOf [(''MPN'', Str ''X'')]) = ''X''
   \<and> keyOf (mpnValueOf [(''MPN'', Str ''x''), (''constructor'', Str ''c'')]) = ''X''
   \<and> normalizeData [[(''MPN'', Str ''X'')], [(''MPN'', Str ''x''), (''constructor'', Str ''c'')]]
      = \<lparr>normalized = [[(''MPN'', Str ''X'')]],
         mpnHeader = Some ''MPN'',
         stats = Some \<lparr>merged = 1, total = 1, original = 2\<rparr>\<rparr>"
proof -
  have a: "''constructor'' \<in> set (obj_keys (mappedRow [(''MPN'', Str ''x''), (''constructor'', Str ''c'')]))"
    by code_simp
  have b: "obj_get (mappedRow [(''MPN'', Str ''x''), (''constructor'', Str ''c'')]) ''constructor'' = Str ''c''"
    by code_simp
  have c: "obj_keys (mappedRow [(''MPN'', Str ''X'')]) = [''MPN'']" by code_simp
  have d: "obj_get (mappedRow [(''MPN'', Str ''X'')]) ''constructor'' = Builtin ''constructor''"
    by code_simp
  have e: "keyOf (mpnValueOf [(''MPN'', Str ''X'')]) = ''X''" by code_simp
  have f: "keyOf (mpnValueOf [(''MPN'', Str ''x''), (''constructor'', Str ''c'')]) = ''X''"
    by code_simp
  have g: "normalizeData [[(''MPN'', Str ''X'')], [(''MPN'', Str ''x''), (''constructor'', Str ''c'')]]
      = \<lparr>normalized = [[(''MPN'', Str ''X'')]],
         mpnHeader = Some ''MPN'',
         stats = Some \<lparr>merged = 1, total = 1, original = 2\<rparr>\<rparr>"
    by code_simp
  from a b c d e f g show ?thesis by (intro conjI)
qed

text \<open>The scenario of the specification's section 8: two records of one key become one.\<close>

lemma merge_scenario:
  "normalizeData
     [[(''MPN'', Str ''X1''), (''Manufacturer'', Str ''Acme''), (''Price'', Str [])],
      [(''MPN'', Str ''x1''), (''Manufacturer'', Str []), (''Price'', Str ''1.00'')]]
   = \<lparr>normalized = [[(''MPN'', Str ''X1''), (''Manufacturer'', Str ''Acme''), (''Price'', Str ''1.00'')]],
      mpnHeader = Some ''MPN'',
      stats = Some \<lparr>merged = 1, total = 1, original = 2\<rparr>\<rparr>"
  by code_simp

section \<open>Properties of the whole run\<close>

text \<open>
  The rows with a falsy \<^verbatim>\<open>MPN\<close> only ever append to \<^verbatim>\<open>nonMpnRows\<close>, the others only ever
  touch \<^verbatim>\<open>uniqueMap\<close>, so the run splits into the two.
\<close>

lemma fold_forEach_split:
  "fold forEach_row data (uniqueMap, nonMpnRows) =
     (fst (fold forEach_row (filter (\<lambda>row. truthy (mpnValueOf row)) data) (uniqueMap, [])),
      nonMpnRows @ map mappedRow (filter (\<lambda>row. \<not> truthy (mpnValueOf row)) data))"
proof (induction data arbitrary: uniqueMap nonMpnRows)
  case Nil
  then show ?case by simp
next
  case (Cons row data)
  show ?case
  proof (cases "truthy (mpnValueOf row)")
    case True
    then show ?thesis
      by (simp add: forEach_row_keyed Cons.IH[where nonMpnRows = nonMpnRows])
  next
    case False
    then show ?thesis
      by (simp add: forEach_row_unkeyed Cons.IH[where nonMpnRows = "nonMpnRows @ [mappedRow row]"])
  qed
qed

lemma nonMpnRowsAfter_eq:
  "nonMpnRowsAfter data = map mappedRow (filter (\<lambda>row. \<not> truthy (mpnValueOf row)) data)"
proof -
  have "snd (fold forEach_row data ([], [])) =
          [] @ map mappedRow (filter (\<lambda>row. \<not> truthy (mpnValueOf row)) data)"
    by (subst fold_forEach_split) (rule snd_conv)
  then show ?thesis by (simp add: nonMpnRowsAfter_def)
qed

lemma uniqueMapAfter_keyed:
  "uniqueMapAfter data = uniqueMapAfter (filter (\<lambda>row. truthy (mpnValueOf row)) data)"
proof -
  have a: "fst (fold forEach_row data ([], [])) =
          fst (fold forEach_row (filter (\<lambda>row. truthy (mpnValueOf row)) data) ([], []))"
    by (subst fold_forEach_split) (rule fst_conv)
  show ?thesis unfolding uniqueMapAfter_def by (rule a)
qed

lemma normalized_eq:
  "normalized (normalizeData data) = map snd (uniqueMapAfter data) @ nonMpnRowsAfter data"
  by (cases "fold forEach_row data ([], [])")
    (auto simp: normalizeData_def uniqueMapAfter_def nonMpnRowsAfter_def Let_def)

text \<open>The keys of \<^verbatim>\<open>uniqueMap\<close>: distinct, and the keys of the rows with a truthy \<^verbatim>\<open>MPN\<close>.\<close>

lemma forEach_row_keys:
  "truthy (mpnValueOf row) \<Longrightarrow>
   map fst (fst (forEach_row row (uniqueMap, nonMpnRows))) =
     (if keyOf (mpnValueOf row) \<in> set (map fst uniqueMap) then map fst uniqueMap
      else map fst uniqueMap @ [keyOf (mpnValueOf row)])"
  by (simp add: forEach_row_keyed map_set_keys)

lemma fold_forEach_keys:
  "list_all (\<lambda>row. truthy (mpnValueOf row)) rows \<Longrightarrow> distinct (map fst uniqueMap) \<Longrightarrow>
   distinct (map fst (fst (fold forEach_row rows (uniqueMap, nonMpnRows))))
   \<and> set (map fst (fst (fold forEach_row rows (uniqueMap, nonMpnRows))))
       = set (map fst uniqueMap) \<union> (\<lambda>row. keyOf (mpnValueOf row)) ` set rows"
proof (induction rows arbitrary: uniqueMap nonMpnRows)
  case Nil
  then show ?case by simp
next
  case (Cons row rows)
  from Cons.prems have t: "truthy (mpnValueOf row)" and rest: "list_all (\<lambda>row. truthy (mpnValueOf row)) rows"
    by simp_all
  obtain um' nm' where st: "forEach_row row (uniqueMap, nonMpnRows) = (um', nm')"
    by (cases "forEach_row row (uniqueMap, nonMpnRows)")
  from forEach_row_keys[OF t, of uniqueMap nonMpnRows] st
  have keys: "map fst um' = (if keyOf (mpnValueOf row) \<in> set (map fst uniqueMap) then map fst uniqueMap
      else map fst uniqueMap @ [keyOf (mpnValueOf row)])"
    by simp
  with Cons.prems(2) have d: "distinct (map fst um')"
    by (simp split: if_splits)
  from keys have s: "set (map fst um') = insert (keyOf (mpnValueOf row)) (set (map fst uniqueMap))"
    by (auto split: if_splits)
  from Cons.IH[OF rest d, of nm'] st s show ?case
    by auto
qed

lemma uniqueMapAfter_keys:
  "distinct (map fst (uniqueMapAfter data))
   \<and> set (map fst (uniqueMapAfter data))
       = (\<lambda>row. keyOf (mpnValueOf row)) ` {row \<in> set data. truthy (mpnValueOf row)}"
proof -
  let ?rows = "filter (\<lambda>row. truthy (mpnValueOf row)) data"
  have "list_all (\<lambda>row. truthy (mpnValueOf row)) ?rows"
    by (simp add: list_all_iff)
  from fold_forEach_keys[OF this, of "[]" "[]"]
  have "distinct (map fst (uniqueMapAfter ?rows))
   \<and> set (map fst (uniqueMapAfter ?rows)) = (\<lambda>row. keyOf (mpnValueOf row)) ` set ?rows"
    by (simp add: uniqueMapAfter_def)
  then show ?thesis
    by (simp add: uniqueMapAfter_keyed[of data])
qed

lemma length_uniqueMapAfter:
  "length (uniqueMapAfter data)
     = card ((\<lambda>row. keyOf (mpnValueOf row)) ` {row \<in> set data. truthy (mpnValueOf row)})"
proof -
  from uniqueMapAfter_keys[of data]
  have d: "distinct (map fst (uniqueMapAfter data))"
    and s: "set (map fst (uniqueMapAfter data))
       = (\<lambda>row. keyOf (mpnValueOf row)) ` {row \<in> set data. truthy (mpnValueOf row)}"
    by simp_all
  from distinct_card[OF d] have "card (set (map fst (uniqueMapAfter data))) = length (uniqueMapAfter data)"
    by simp
  with s show ?thesis by simp
qed

text \<open>
  The order of the keys of \<^verbatim>\<open>uniqueMap\<close>: that of their first occurrence among the rows
  with a truthy \<^verbatim>\<open>MPN\<close>.
\<close>

lemma remdups_drop_repeated:
  "k \<in> set zs \<Longrightarrow> remdups (xs @ k # zs) = remdups (xs @ zs)"
  by (induction xs) auto

lemma fold_first_seen:
  "distinct seen \<Longrightarrow>
   fold (\<lambda>k ks. if k \<in> set ks then ks else ks @ [k]) keys seen = rev (remdups (rev (seen @ keys)))"
proof (induction keys arbitrary: seen)
  case Nil
  then show ?case by (simp add: distinct_remdups_id)
next
  case (Cons k keys)
  show ?case
  proof (cases "k \<in> set seen")
    case True
    then have "remdups (rev keys @ k # rev seen) = remdups (rev keys @ rev seen)"
      by (intro remdups_drop_repeated) simp
    with True Cons.IH[OF Cons.prems] show ?thesis by simp
  next
    case False
    with Cons.prems have "distinct (seen @ [k])" by simp
    from Cons.IH[OF this] False show ?thesis by simp
  qed
qed

lemma fold_forEach_key_order:
  "list_all (\<lambda>row. truthy (mpnValueOf row)) rows \<Longrightarrow>
   map fst (fst (fold forEach_row rows (uniqueMap, nonMpnRows)))
     = fold (\<lambda>k ks. if k \<in> set ks then ks else ks @ [k])
         (map (\<lambda>row. keyOf (mpnValueOf row)) rows) (map fst uniqueMap)"
proof (induction rows arbitrary: uniqueMap nonMpnRows)
  case Nil
  then show ?case by simp
next
  case (Cons row rows)
  from Cons.prems have t: "truthy (mpnValueOf row)"
    and rest: "list_all (\<lambda>row. truthy (mpnValueOf row)) rows"
    by simp_all
  obtain um' nm' where st: "forEach_row row (uniqueMap, nonMpnRows) = (um', nm')"
    by (cases "forEach_row row (uniqueMap, nonMpnRows)")
  from forEach_row_keys[OF t, of uniqueMap nonMpnRows] st
  have "map fst um' = (if keyOf (mpnValueOf row) \<in> set (map fst uniqueMap) then map fst uniqueMap
      else map fst uniqueMap @ [keyOf (mpnValueOf row)])"
    by simp
  with Cons.IH[OF rest, of um' nm'] st show ?case by simp
qed

lemma uniqueMapAfter_order:
  "map fst (uniqueMapAfter data)
     = rev (remdups (rev (map (\<lambda>row. keyOf (mpnValueOf row))
                            (filter (\<lambda>row. truthy (mpnValueOf row)) data))))"
proof -
  let ?rows = "filter (\<lambda>row. truthy (mpnValueOf row)) data"
  have "list_all (\<lambda>row. truthy (mpnValueOf row)) ?rows"
    by (simp add: list_all_iff)
  from fold_forEach_key_order[OF this, of "[]" "[]"]
  have "map fst (uniqueMapAfter ?rows)
          = fold (\<lambda>k ks. if k \<in> set ks then ks else ks @ [k])
              (map (\<lambda>row. keyOf (mpnValueOf row)) ?rows) []"
    by (simp add: uniqueMapAfter_def)
  also have "\<dots> = rev (remdups (rev ([] @ map (\<lambda>row. keyOf (mpnValueOf row)) ?rows)))"
    by (rule fold_first_seen) simp
  finally show ?thesis
    by (simp add: uniqueMapAfter_keyed[of data])
qed

text \<open>
  The resident of a key: the mapped record of the first row with that key, filled from
  the later rows with that key, in input order.
\<close>

lemma fold_forEach_value:
  "list_all (\<lambda>row. truthy (mpnValueOf row)) rows \<Longrightarrow>
   map_get (fst (fold forEach_row rows (uniqueMap, nonMpnRows))) k =
     (case map_get uniqueMap k of
        Some existing \<Rightarrow>
          Some (fold (\<lambda>row ex. mergeFill ex (mappedRow row))
                  (filter (\<lambda>row. keyOf (mpnValueOf row) = k) rows) existing)
      | None \<Rightarrow>
          (case filter (\<lambda>row. keyOf (mpnValueOf row) = k) rows of
             [] \<Rightarrow> None
           | first # later \<Rightarrow>
               Some (fold (\<lambda>row ex. mergeFill ex (mappedRow row)) later (mappedRow first))))"
proof (induction rows arbitrary: uniqueMap nonMpnRows)
  case Nil
  then show ?case by (simp split: option.splits)
next
  case (Cons row rows)
  from Cons.prems have t: "truthy (mpnValueOf row)"
    and rest: "list_all (\<lambda>row. truthy (mpnValueOf row)) rows"
    by simp_all
  note step = forEach_row_keyed[OF t, of uniqueMap nonMpnRows]
  show ?case
  proof (cases "keyOf (mpnValueOf row) = k")
    case True
    then show ?thesis
      by (simp add: step Cons.IH[OF rest] map_get_set split: option.splits)
  next
    case False
    then show ?thesis
      by (simp add: step Cons.IH[OF rest] map_get_set split: option.splits)
  qed
qed

lemma uniqueMapAfter_value:
  "map_get (uniqueMapAfter data) k =
     (case filter (\<lambda>row. truthy (mpnValueOf row) \<and> keyOf (mpnValueOf row) = k) data of
        [] \<Rightarrow> None
      | first # later \<Rightarrow>
          Some (fold (\<lambda>row ex. mergeFill ex (mappedRow row)) later (mappedRow first)))"
proof -
  let ?rows = "filter (\<lambda>row. truthy (mpnValueOf row)) data"
  have "list_all (\<lambda>row. truthy (mpnValueOf row)) ?rows"
    by (simp add: list_all_iff)
  from fold_forEach_value[OF this, of "[]" "[]" k]
  have "map_get (uniqueMapAfter ?rows) k =
     (case filter (\<lambda>row. keyOf (mpnValueOf row) = k) ?rows of
        [] \<Rightarrow> None
      | first # later \<Rightarrow>
          Some (fold (\<lambda>row ex. mergeFill ex (mappedRow row)) later (mappedRow first)))"
    by (simp add: uniqueMapAfter_def map_get_def)
  moreover have "filter (\<lambda>row. keyOf (mpnValueOf row) = k) ?rows
      = filter (\<lambda>row. truthy (mpnValueOf row) \<and> keyOf (mpnValueOf row) = k) data"
    by (simp add: conj_commute)
  ultimately show ?thesis
    by (simp only: uniqueMapAfter_keyed[of data])
qed

text \<open>The output: the residents in the order of their keys, then the rows with a falsy \<^verbatim>\<open>MPN\<close>.\<close>

lemma normalized_groups:
  "normalized (normalizeData data) =
     map snd (uniqueMapAfter data)
     @ map mappedRow (filter (\<lambda>row. \<not> truthy (mpnValueOf row)) data)"
  by (simp only: normalized_eq nonMpnRowsAfter_eq)

section \<open>The identity key of the specification and the key of the code\<close>

lemma trim_Nil_iff: "trim s = [] \<longleftrightarrow> (\<forall>c \<in> set s. isWhiteSpace c)"
proof
  assume t: "trim s = []"
  show "\<forall>c \<in> set s. isWhiteSpace c"
  proof (rule ccontr)
    assume "\<not> (\<forall>c \<in> set s. isWhiteSpace c)"
    then have ne: "dropWhile isWhiteSpace s \<noteq> []"
      by simp
    then have "\<not> isWhiteSpace (hd (dropWhile isWhiteSpace s))"
      by (rule hd_dropWhile)
    moreover from ne have "hd (dropWhile isWhiteSpace s) \<in> set (rev (dropWhile isWhiteSpace s))"
      by simp
    ultimately have "dropWhile isWhiteSpace (rev (dropWhile isWhiteSpace s)) \<noteq> []"
      by (metis dropWhile_eq_Nil_conv)
    with t show False by (simp add: trim_def)
  qed
next
  assume "\<forall>c \<in> set s. isWhiteSpace c"
  then have d: "dropWhile isWhiteSpace s = []" by simp
  show "trim s = []" by (simp only: trim_def d rev.simps dropWhile.simps)
qed

lemma toUpperCase_Nil_iff: "toUpperCase s = [] \<longleftrightarrow> s = []"
  by (simp add: toUpperCase_def)

lemma isWhiteSpace_code: "isWhiteSpace c \<Longrightarrow> (of_char c :: nat) \<le> 32"
  by (auto simp: isWhiteSpace_def)

lemma digit_not_whitespace: "d < 10 \<Longrightarrow> \<not> isWhiteSpace (digitChar d)"
proof
  assume d: "d < 10" and "isWhiteSpace (digitChar d)"
  then have "(of_char (digitChar d) :: nat) \<le> 32" by (rule_tac isWhiteSpace_code)
  moreover from d have "(of_char (digitChar d) :: nat) = 48 + d"
    by (simp add: digitChar_def)
  ultimately show False by simp
qed

lemma natToString_last: "natToString n \<noteq> [] \<and> last (natToString n) = digitChar (n mod 10)"
  by (subst (1 2) natToString.simps) simp

lemma trim_natToString: "trim (natToString n) \<noteq> []"
proof -
  from natToString_last[of n] have "digitChar (n mod 10) \<in> set (natToString n)"
    by (metis last_in_set)
  moreover have "\<not> isWhiteSpace (digitChar (n mod 10))"
    by (rule digit_not_whitespace) simp
  ultimately show ?thesis by (auto simp: trim_Nil_iff)
qed

lemma trim_toString_nonempty:
  "truthy v \<Longrightarrow> \<not> whitespaceOnly v \<Longrightarrow> trim (toString v) \<noteq> []"
proof (cases v)
  case (Bool b)
  assume "truthy v"
  with Bool have "toString v = ''true''" by simp
  moreover have "trim ''true'' \<noteq> []" by code_simp
  ultimately show ?thesis by simp
next
  case (Num n)
  have "trim (CHR ''-'' # natToString m) \<noteq> []" for m
  proof -
    from natToString_last[of m] have "digitChar (m mod 10) \<in> set (CHR ''-'' # natToString m)"
      by (metis last_in_set list.set_intros(2))
    moreover have "\<not> isWhiteSpace (digitChar (m mod 10))"
      by (rule digit_not_whitespace) simp
    ultimately show ?thesis unfolding trim_Nil_iff by blast
  qed
  with Num show ?thesis by (simp add: trim_natToString)
next
  case (Builtin k)
  have "\<not> isWhiteSpace CHR ''f''" "\<not> isWhiteSpace CHR ''[''"
    by (simp_all add: isWhiteSpace_def)
  then have "trim (toString (Builtin k)) \<noteq> []"
    by (auto simp: trim_Nil_iff)
  with Builtin show ?thesis by simp
qed simp_all

text \<open>
  Where the \<^verbatim>\<open>MPN\<close> is neither white space only nor a falsy value other than the empty
  string, the specification and the code agree on who has an identity and on the key.
\<close>

lemma identityKey_agrees:
  assumes "\<not> whitespaceOnly (obj_get canonical ''MPN'')"
    and "\<not> falsyNonEmpty (obj_get canonical ''MPN'')"
  shows "identityKey canonical =
     (if truthy (obj_get canonical ''MPN'') then Some (keyOf (obj_get canonical ''MPN'')) else None)"
proof (cases "truthy (obj_get canonical ''MPN'')")
  case True
  from True assms(1) have "trim (toString (obj_get canonical ''MPN'')) \<noteq> []"
    by (rule trim_toString_nonempty)
  moreover from True have "obj_get canonical ''MPN'' \<noteq> Undefined" by auto
  ultimately show ?thesis using True
    by (simp add: identityKey_def keyOf_def Let_def)
next
  case False
  with assms(2) have "obj_get canonical ''MPN'' = Undefined \<or> obj_get canonical ''MPN'' = Str []"
    by (auto simp: falsyNonEmpty_def)
  moreover have "trim [] = []" by (simp add: trim_def)
  ultimately show ?thesis using False
    by (auto simp: identityKey_def Let_def)
qed

section \<open>Records without identity, and the statistics\<close>

text \<open>
  Claim C10. A row whose mapped record has an \<^verbatim>\<open>MPN\<close> field holding a falsy value other
  than the empty string (the number 0, \<^verbatim>\<open>false\<close>, \<^verbatim>\<open>null\<close>, \<open>NaN\<close>) has no identity for
  \<^verbatim>\<open>normalizeData\<close>: the step appends its mapped record, as it is, to \<^verbatim>\<open>nonMpnRows\<close> and
  leaves \<^verbatim>\<open>uniqueMap\<close> alone. Wherever the row stands in the input, \<^verbatim>\<open>uniqueMap\<close> ends as
  if the row were not there (it is never merged, and nothing is merged into it), and
  the mapped record stands in group (b) between those of the rows before it and those
  of the rows after it.
\<close>

theorem falsy_mpn_no_identity:
  assumes "''MPN'' \<in> set (obj_keys (mappedRow row))"
    and "\<not> truthy (mpnValueOf row)"
    and "mpnValueOf row \<noteq> Str []"
  shows "forEach_row row (uniqueMap, nonMpnRows) = (uniqueMap, nonMpnRows @ [mappedRow row])
         \<and> uniqueMapAfter (pre @ row # post) = uniqueMapAfter (pre @ post)
         \<and> nonMpnRowsAfter (pre @ row # post) = nonMpnRowsAfter pre @ mappedRow row # nonMpnRowsAfter post
         \<and> normalized (normalizeData (pre @ row # post))
             = map snd (uniqueMapAfter (pre @ post)) @ nonMpnRowsAfter pre @ mappedRow row # nonMpnRowsAfter post"
proof -
  have a: "forEach_row row (uniqueMap, nonMpnRows) = (uniqueMap, nonMpnRows @ [mappedRow row])"
    using assms(2) by (rule forEach_row_unkeyed)
  have "filter (\<lambda>row. truthy (mpnValueOf row)) (pre @ row # post)
          = filter (\<lambda>row. truthy (mpnValueOf row)) (pre @ post)"
    using assms(2) by simp
  then have b: "uniqueMapAfter (pre @ row # post) = uniqueMapAfter (pre @ post)"
    using uniqueMapAfter_keyed[of "pre @ row # post"] uniqueMapAfter_keyed[of "pre @ post"]
    by simp
  have c: "nonMpnRowsAfter (pre @ row # post) = nonMpnRowsAfter pre @ mappedRow row # nonMpnRowsAfter post"
    using assms(2) by (simp add: nonMpnRowsAfter_eq)
  have d: "normalized (normalizeData (pre @ row # post))
             = map snd (uniqueMapAfter (pre @ post)) @ nonMpnRowsAfter pre @ mappedRow row # nonMpnRowsAfter post"
    by (simp only: normalized_eq b c)
  from a b c d show ?thesis by (intro conjI)
qed

theorem falsy_mpn_no_identity_witness:
  "''MPN'' \<in> set (obj_keys (mappedRow [(''Part Number'', Num 0), (''Mfr.'', Str ''A'')]))
   \<and> \<not> truthy (mpnValueOf [(''Part Number'', Num 0), (''Mfr.'', Str ''A'')])
   \<and> mpnValueOf [(''Part Number'', Num 0), (''Mfr.'', Str ''A'')] \<noteq> Str []
   \<and> normalized (normalizeData
        ([[(''MPN'', Num 0), (''Mfr.'', Str ''C'')]]
         @ [(''Part Number'', Num 0), (''Mfr.'', Str ''A'')]
         # [[(''MPN'', Str ''X''), (''Mfr.'', Str ''B'')]]))
      = [[(''MPN'', Str ''X''), (''Manufacturer'', Str ''B'')],
         [(''MPN'', Num 0), (''Manufacturer'', Str ''C'')],
         [(''MPN'', Num 0), (''Manufacturer'', Str ''A'')]]"
proof -
  let ?row = "[(''Part Number'', Num 0), (''Mfr.'', Str ''A'')]"
  let ?pre = "[[(''MPN'', Num 0), (''Mfr.'', Str ''C'')]]"
  let ?post = "[[(''MPN'', Str ''X''), (''Mfr.'', Str ''B'')]]"
  have mr: "mappedRow ?row = [(''MPN'', Num 0), (''Manufacturer'', Str ''A'')]" by code_simp
  have h1: "''MPN'' \<in> set (obj_keys (mappedRow ?row))" by (simp only: mr) code_simp
  have v: "mpnValueOf ?row = Num 0" by (simp only: mr) code_simp
  have h2: "\<not> truthy (mpnValueOf ?row)" by (simp only: v) simp
  have h3: "mpnValueOf ?row \<noteq> Str []" by (simp only: v) simp
  have u: "map snd (uniqueMapAfter (?pre @ ?post)) = [[(''MPN'', Str ''X''), (''Manufacturer'', Str ''B'')]]"
    by code_simp
  have n1: "nonMpnRowsAfter ?pre = [[(''MPN'', Num 0), (''Manufacturer'', Str ''C'')]]" by code_simp
  have n2: "nonMpnRowsAfter ?post = []" by code_simp
  have rhs: "map snd (uniqueMapAfter (?pre @ ?post)) @ nonMpnRowsAfter ?pre
               @ mappedRow ?row # nonMpnRowsAfter ?post
      = [[(''MPN'', Str ''X''), (''Manufacturer'', Str ''B'')],
         [(''MPN'', Num 0), (''Manufacturer'', Str ''C'')],
         [(''MPN'', Num 0), (''Manufacturer'', Str ''A'')]]"
    by (simp only: u n1 n2 mr) simp
  have r: "normalized (normalizeData (?pre @ ?row # ?post))
      = [[(''MPN'', Str ''X''), (''Manufacturer'', Str ''B'')],
         [(''MPN'', Num 0), (''Manufacturer'', Str ''C'')],
         [(''MPN'', Num 0), (''Manufacturer'', Str ''A'')]]"
    by (rule trans[OF falsy_mpn_no_identity[OF h1 h2 h3, of "[]" "[]" ?pre ?post,
            THEN conjunct2, THEN conjunct2, THEN conjunct2] rhs])
  from h1 h2 h3 r show ?thesis by (intro conjI)
qed

text \<open>
  Claim C3, as amended. On the empty input \<^verbatim>\<open>normalizeData\<close> returns at line 239: the
  normalized sequence is empty, \<^verbatim>\<open>mpnHeader\<close> is \<^verbatim>\<open>null\<close>, and the returned object has no
  \<^verbatim>\<open>stats\<close> property at all. The claim as stated, a stats object with three zero
  counters, fails: see the counterexample that follows.
\<close>

theorem empty_input_no_stats:
  "normalized (normalizeData []) = [] \<and> mpnHeader (normalizeData []) = None
   \<and> stats (normalizeData []) = None"
  by (simp add: normalizeData_def)

theorem empty_input_zero_stats_counterexample:
  "stats (normalizeData []) \<noteq> Some \<lparr>merged = 0, total = 0, original = 0\<rparr>"
  by (simp add: normalizeData_def)

lemma stats_eq:
  "data \<noteq> [] \<Longrightarrow>
   stats (normalizeData data) =
     Some \<lparr>merged = int (length data) - int (length (normalized (normalizeData data))),
           total = int (length (normalized (normalizeData data))),
           original = int (length data)\<rparr>"
  by (cases "fold forEach_row data ([], [])") (simp add: normalizeData_def Let_def)

text \<open>
  Claim C4, as amended. For every input that is not empty, \<^verbatim>\<open>normalizeData\<close> returns a
  stats object with \<open>original = total + merged\<close>, \<open>original\<close> the number of input records,
  \<open>total\<close> the length of the output and \<open>merged = original - total\<close>. When no record has
  a white-space-only \<^verbatim>\<open>MPN\<close>, \<open>total\<close> is the number of distinct keys
  \<^verbatim>\<open>String(MPN).trim().toUpperCase()\<close> among the records whose \<^verbatim>\<open>MPN\<close> is truthy plus the
  number of records whose \<^verbatim>\<open>MPN\<close> is falsy: absent, the empty string, or a falsy value
  such as the number 0, which the code counts among the records without identity. When
  moreover no record has such a falsy \<^verbatim>\<open>MPN\<close> other than the absent and the empty one,
  that number is the specification's: the distinct IdentityKeys plus the records
  without identity. The empty input has no stats object, and two records with the
  \<^verbatim>\<open>MPN\<close> 0 have one IdentityKey in the specification's sense and a \<open>total\<close> of 2: see the
  counterexample that follows the theorem.
\<close>

theorem stats_conservation:
  assumes "data \<noteq> []"
  shows "\<exists>s. stats (normalizeData data) = Some s
          \<and> original s = total s + merged s
          \<and> original s = int (length data)
          \<and> total s = int (length (normalized (normalizeData data)))
          \<and> merged s = original s - total s
          \<and> ((\<forall>row \<in> set data. \<not> whitespaceOnly (mpnValueOf row)) \<longrightarrow>
               total s = int (card ((\<lambda>row. keyOf (mpnValueOf row)) `
                                      {row \<in> set data. truthy (mpnValueOf row)}))
                         + int (length (filter (\<lambda>row. \<not> truthy (mpnValueOf row)) data)))
          \<and> ((\<forall>row \<in> set data. \<not> whitespaceOnly (mpnValueOf row) \<and> \<not> falsyNonEmpty (mpnValueOf row)) \<longrightarrow>
               total s = int (card {k. \<exists>row \<in> set data. identityKey (mappedRow row) = Some k})
                         + int (length (filter (\<lambda>row. identityKey (mappedRow row) = None) data)))"
proof -
  let ?s = "\<lparr>merged = int (length data) - int (length (normalized (normalizeData data))),
           total = int (length (normalized (normalizeData data))),
           original = int (length data)\<rparr>"
  have len: "length (normalized (normalizeData data))
      = card ((\<lambda>row. keyOf (mpnValueOf row)) ` {row \<in> set data. truthy (mpnValueOf row)})
        + length (filter (\<lambda>row. \<not> truthy (mpnValueOf row)) data)"
    by (simp add: normalized_eq length_uniqueMapAfter nonMpnRowsAfter_eq)
  then have code_count: "total ?s = int (card ((\<lambda>row. keyOf (mpnValueOf row)) `
                                      {row \<in> set data. truthy (mpnValueOf row)}))
                         + int (length (filter (\<lambda>row. \<not> truthy (mpnValueOf row)) data))"
    by simp
  have spec_count: "total ?s = int (card {k. \<exists>row \<in> set data. identityKey (mappedRow row) = Some k})
                         + int (length (filter (\<lambda>row. identityKey (mappedRow row) = None) data))"
    if agree: "\<forall>row \<in> set data. \<not> whitespaceOnly (mpnValueOf row) \<and> \<not> falsyNonEmpty (mpnValueOf row)"
  proof -
    from agree have ik: "\<And>row. row \<in> set data \<Longrightarrow> identityKey (mappedRow row) =
       (if truthy (mpnValueOf row) then Some (keyOf (mpnValueOf row)) else None)"
      by (simp add: identityKey_agrees)
    have "{k. \<exists>row \<in> set data. identityKey (mappedRow row) = Some k}
           = (\<lambda>row. keyOf (mpnValueOf row)) ` {row \<in> set data. truthy (mpnValueOf row)}"
      using ik by (auto split: if_splits)
    moreover have "filter (\<lambda>row. identityKey (mappedRow row) = None) data
           = filter (\<lambda>row. \<not> truthy (mpnValueOf row)) data"
      using ik by (intro filter_cong refl) simp
    ultimately show ?thesis using len by simp
  qed
  have "stats (normalizeData data) = Some ?s"
    using assms by (rule stats_eq)
  moreover have "original ?s = total ?s + merged ?s" by simp
  moreover have "original ?s = int (length data)" by simp
  moreover have "total ?s = int (length (normalized (normalizeData data)))" by simp
  moreover have "merged ?s = original ?s - total ?s" by simp
  ultimately show ?thesis using code_count spec_count by blast
qed

theorem stats_conservation_counterexample:
  "stats (normalizeData []) = None
   \<and> identityKey (mappedRow [(''MPN'', Num 0)]) = Some ''0''
   \<and> stats (normalizeData [[(''MPN'', Num 0)], [(''MPN'', Num 0)]])
       = Some \<lparr>merged = 0, total = 2, original = 2\<rparr>"
proof -
  have a: "stats (normalizeData []) = None"
    by (simp add: normalizeData_def)
  have b: "identityKey (mappedRow [(''MPN'', Num 0)]) = Some ''0''" by code_simp
  have c: "stats (normalizeData [[(''MPN'', Num 0)], [(''MPN'', Num 0)]])
       = Some \<lparr>merged = 0, total = 2, original = 2\<rparr>" by code_simp
  from a b c show ?thesis by (intro conjI)
qed

theorem stats_conservation_witness:
  "[[(''MPN'', Str ''X1''), (''Mfr.'', Str ''Acme''), (''Price'', Str [])],
    [(''MPN'', Str ''x1''), (''Mfr.'', Str []), (''Price'', Str ''1.00'')]] \<noteq> []
   \<and> list_all (\<lambda>row. \<not> whitespaceOnly (mpnValueOf row) \<and> \<not> falsyNonEmpty (mpnValueOf row))
        [[(''MPN'', Str ''X1''), (''Mfr.'', Str ''Acme''), (''Price'', Str [])],
         [(''MPN'', Str ''x1''), (''Mfr.'', Str []), (''Price'', Str ''1.00'')]]
   \<and> (\<exists>s. stats (normalizeData
               [[(''MPN'', Str ''X1''), (''Mfr.'', Str ''Acme''), (''Price'', Str [])],
                [(''MPN'', Str ''x1''), (''Mfr.'', Str []), (''Price'', Str ''1.00'')]]) = Some s
          \<and> original s = 2 \<and> total s = 1 \<and> merged s = 1
          \<and> int (card ((\<lambda>row. keyOf (mpnValueOf row)) `
               {row \<in> set [[(''MPN'', Str ''X1''), (''Mfr.'', Str ''Acme''), (''Price'', Str [])],
                [(''MPN'', Str ''x1''), (''Mfr.'', Str []), (''Price'', Str ''1.00'')]].
                  truthy (mpnValueOf row)}))
            + int (length (filter (\<lambda>row. \<not> truthy (mpnValueOf row))
                [[(''MPN'', Str ''X1''), (''Mfr.'', Str ''Acme''), (''Price'', Str [])],
                [(''MPN'', Str ''x1''), (''Mfr.'', Str []), (''Price'', Str ''1.00'')]])) = 1
          \<and> int (card {k. \<exists>row \<in> set [[(''MPN'', Str ''X1''), (''Mfr.'', Str ''Acme''), (''Price'', Str [])],
                [(''MPN'', Str ''x1''), (''Mfr.'', Str []), (''Price'', Str ''1.00'')]].
                     identityKey (mappedRow row) = Some k})
            + int (length (filter (\<lambda>row. identityKey (mappedRow row) = None)
                [[(''MPN'', Str ''X1''), (''Mfr.'', Str ''Acme''), (''Price'', Str [])],
                [(''MPN'', Str ''x1''), (''Mfr.'', Str []), (''Price'', Str ''1.00'')]])) = 1)"
proof -
  let ?data = "[[(''MPN'', Str ''X1''), (''Mfr.'', Str ''Acme''), (''Price'', Str [])],
                [(''MPN'', Str ''x1''), (''Mfr.'', Str []), (''Price'', Str ''1.00'')]]"
  have ne: "?data \<noteq> []" by simp
  have nw: "list_all (\<lambda>row. \<not> whitespaceOnly (mpnValueOf row) \<and> \<not> falsyNonEmpty (mpnValueOf row)) ?data"
    by code_simp
  then have agree: "\<forall>row \<in> set ?data. \<not> whitespaceOnly (mpnValueOf row) \<and> \<not> falsyNonEmpty (mpnValueOf row)"
    by (simp only: list_all_iff)
  then have nows: "\<forall>row \<in> set ?data. \<not> whitespaceOnly (mpnValueOf row)"
    by blast
  have len: "length (normalized (normalizeData ?data)) = 1" by code_simp
  from stats_conservation[OF ne] obtain s where
    s: "stats (normalizeData ?data) = Some s"
      "original s = int (length ?data)"
      "total s = int (length (normalized (normalizeData ?data)))"
      "merged s = original s - total s"
      "(\<forall>row \<in> set ?data. \<not> whitespaceOnly (mpnValueOf row)) \<longrightarrow>
               total s = int (card ((\<lambda>row. keyOf (mpnValueOf row)) `
                                      {row \<in> set ?data. truthy (mpnValueOf row)}))
                         + int (length (filter (\<lambda>row. \<not> truthy (mpnValueOf row)) ?data))"
      "(\<forall>row \<in> set ?data. \<not> whitespaceOnly (mpnValueOf row) \<and> \<not> falsyNonEmpty (mpnValueOf row)) \<longrightarrow>
               total s = int (card {k. \<exists>row \<in> set ?data. identityKey (mappedRow row) = Some k})
                         + int (length (filter (\<lambda>row. identityKey (mappedRow row) = None) ?data))"
    by (elim exE conjE)
  from s(2) have o: "original s = 2" by simp
  from s(3) len have t: "total s = 1" by simp
  from s(4) o t have m: "merged s = 1" by simp
  from s(5) nows have "total s = int (card ((\<lambda>row. keyOf (mpnValueOf row)) `
                                      {row \<in> set ?data. truthy (mpnValueOf row)}))
                         + int (length (filter (\<lambda>row. \<not> truthy (mpnValueOf row)) ?data))"
    by (rule mp)
  with t have c1: "int (card ((\<lambda>row. keyOf (mpnValueOf row)) `
                                      {row \<in> set ?data. truthy (mpnValueOf row)}))
                         + int (length (filter (\<lambda>row. \<not> truthy (mpnValueOf row)) ?data)) = 1"
    by (simp only:)
  from s(6) agree have "total s = int (card {k. \<exists>row \<in> set ?data. identityKey (mappedRow row) = Some k})
                         + int (length (filter (\<lambda>row. identityKey (mappedRow row) = None) ?data))"
    by (rule mp)
  with t have c2: "int (card {k. \<exists>row \<in> set ?data. identityKey (mappedRow row) = Some k})
                         + int (length (filter (\<lambda>row. identityKey (mappedRow row) = None) ?data)) = 1"
    by (simp only:)
  from s(1) o t m c1 c2 have "\<exists>s. stats (normalizeData ?data) = Some s
          \<and> original s = 2 \<and> total s = 1 \<and> merged s = 1
          \<and> int (card ((\<lambda>row. keyOf (mpnValueOf row)) `
                                      {row \<in> set ?data. truthy (mpnValueOf row)}))
                         + int (length (filter (\<lambda>row. \<not> truthy (mpnValueOf row)) ?data)) = 1
          \<and> int (card {k. \<exists>row \<in> set ?data. identityKey (mappedRow row) = Some k})
            + int (length (filter (\<lambda>row. identityKey (mappedRow row) = None) ?data)) = 1"
    by (intro exI[of _ s] conjI)
  with ne nw show ?thesis by (intro conjI)
qed

section \<open>White-space-only part numbers\<close>

text \<open>
  Claim C2 does not hold of the code. Line 287 tests \<^verbatim>\<open>!mpnValue\<close> on the raw value, and a
  string of spaces is truthy; line 292 then trims it to the empty key, and the empty
  string is a key of the \<^verbatim>\<open>Map\<close> like any other. Two records whose \<^verbatim>\<open>MPN\<close> values are
  one space and two spaces have no identity in the specification's sense, yet the code
  files both under the key \<^verbatim>\<open>""\<close>: the output is one record in group (a), the second
  record's manufacturer \<^verbatim>\<open>"B"\<close> is dropped by the fill, and the statistics count one
  merge.
\<close>

theorem whitespace_mpn_rows_are_merged:
  "whitespaceOnly (Str '' '') \<and> whitespaceOnly (Str ''  '')
   \<and> identityKey (mappedRow [(''MPN'', Str '' ''), (''Mfr.'', Str ''A'')]) = None
   \<and> identityKey (mappedRow [(''MPN'', Str ''  ''), (''Mfr.'', Str ''B'')]) = None
   \<and> normalized (normalizeData
        [[(''MPN'', Str '' ''), (''Mfr.'', Str ''A'')],
         [(''MPN'', Str ''  ''), (''Mfr.'', Str ''B'')]])
      = [[(''MPN'', Str '' ''), (''Manufacturer'', Str ''A'')]]
   \<and> stats (normalizeData
        [[(''MPN'', Str '' ''), (''Mfr.'', Str ''A'')],
         [(''MPN'', Str ''  ''), (''Mfr.'', Str ''B'')]])
      = Some \<lparr>merged = 1, total = 1, original = 2\<rparr>"
proof -
  have a: "whitespaceOnly (Str '' '')" by code_simp
  have b: "whitespaceOnly (Str ''  '')" by code_simp
  have c: "identityKey (mappedRow [(''MPN'', Str '' ''), (''Mfr.'', Str ''A'')]) = None" by code_simp
  have d: "identityKey (mappedRow [(''MPN'', Str ''  ''), (''Mfr.'', Str ''B'')]) = None" by code_simp
  have n: "normalizeData
        [[(''MPN'', Str '' ''), (''Mfr.'', Str ''A'')],
         [(''MPN'', Str ''  ''), (''Mfr.'', Str ''B'')]]
      = \<lparr>normalized = [[(''MPN'', Str '' ''), (''Manufacturer'', Str ''A'')]],
         mpnHeader = Some ''MPN'',
         stats = Some \<lparr>merged = 1, total = 1, original = 2\<rparr>\<rparr>" by code_simp
  have e: "normalized (normalizeData
        [[(''MPN'', Str '' ''), (''Mfr.'', Str ''A'')],
         [(''MPN'', Str ''  ''), (''Mfr.'', Str ''B'')]])
      = [[(''MPN'', Str '' ''), (''Manufacturer'', Str ''A'')]]" by (simp only: n) simp
  have f: "stats (normalizeData
        [[(''MPN'', Str '' ''), (''Mfr.'', Str ''A'')],
         [(''MPN'', Str ''  ''), (''Mfr.'', Str ''B'')]])
      = Some \<lparr>merged = 1, total = 1, original = 2\<rparr>" by (simp only: n) simp
  from a b c d e f show ?thesis by (intro conjI)
qed

text \<open>
  Claim C5 does not hold of the code, for the same reason as claim C2. Of the two
  records below the first has a white-space-only part number, so no identity in the
  specification's sense, and the second has the identity \<^verbatim>\<open>"X1"\<close>. The claim puts the
  second first (group (a)) and the first last (group (b)). The code puts both in
  \<^verbatim>\<open>uniqueMap\<close>, the first under the key \<^verbatim>\<open>""\<close>, leaves \<^verbatim>\<open>nonMpnRows\<close> empty and returns
  them in input order.
\<close>

theorem whitespace_mpn_row_in_keyed_group:
  "identityKey (mappedRow [(''Part Number'', Str '' ''), (''Mfr.'', Str ''A'')]) = None
   \<and> identityKey (mappedRow [(''Part Number'', Str ''X1''), (''Mfr.'', Str ''B'')]) = Some ''X1''
   \<and> uniqueMapAfter
        [[(''Part Number'', Str '' ''), (''Mfr.'', Str ''A'')],
         [(''Part Number'', Str ''X1''), (''Mfr.'', Str ''B'')]]
      = [([], [(''MPN'', Str '' ''), (''Manufacturer'', Str ''A'')]),
         (''X1'', [(''MPN'', Str ''X1''), (''Manufacturer'', Str ''B'')])]
   \<and> nonMpnRowsAfter
        [[(''Part Number'', Str '' ''), (''Mfr.'', Str ''A'')],
         [(''Part Number'', Str ''X1''), (''Mfr.'', Str ''B'')]] = []
   \<and> normalized (normalizeData
        [[(''Part Number'', Str '' ''), (''Mfr.'', Str ''A'')],
         [(''Part Number'', Str ''X1''), (''Mfr.'', Str ''B'')]])
      = [[(''MPN'', Str '' ''), (''Manufacturer'', Str ''A'')],
         [(''MPN'', Str ''X1''), (''Manufacturer'', Str ''B'')]]"
proof -
  let ?data = "[[(''Part Number'', Str '' ''), (''Mfr.'', Str ''A'')],
         [(''Part Number'', Str ''X1''), (''Mfr.'', Str ''B'')]]"
  have a: "identityKey (mappedRow [(''Part Number'', Str '' ''), (''Mfr.'', Str ''A'')]) = None"
    by code_simp
  have b: "identityKey (mappedRow [(''Part Number'', Str ''X1''), (''Mfr.'', Str ''B'')]) = Some ''X1''"
    by code_simp
  have c: "uniqueMapAfter ?data
      = [([], [(''MPN'', Str '' ''), (''Manufacturer'', Str ''A'')]),
         (''X1'', [(''MPN'', Str ''X1''), (''Manufacturer'', Str ''B'')])]" by code_simp
  have d: "nonMpnRowsAfter ?data = []" by code_simp
  have e: "normalized (normalizeData ?data)
      = [[(''MPN'', Str '' ''), (''Manufacturer'', Str ''A'')],
         [(''MPN'', Str ''X1''), (''Manufacturer'', Str ''B'')]]" by code_simp
  from a b c d e show ?thesis by (intro conjI)
qed

section \<open>Properties of the condensed projection\<close>

text \<open>
  What \<^verbatim>\<open>generateCondensedData\<close> does: one record of the nine display columns, in the
  order of \<^verbatim>\<open>importantMap\<close>, for each input record, each column holding
  \<^verbatim>\<open>row[masterKey] || ""\<close>.
\<close>

lemma condenseRow_eq:
  "condenseRow row =
     [(''Manufacturer'', js_or (obj_get row ''Manufacturer'') (Str [])),
      (''MPN'', js_or (obj_get row ''MPN'') (Str [])),
      (''Min / Mult (MOQ)'', js_or (obj_get row ''Min/Mult (MOQ)'') (Str [])),
      (''Unit Price'', js_or (obj_get row ''Unit Price'') (Str [])),
      (''Stock Status'', js_or (obj_get row ''Stock Status'') (Str [])),
      (''Quantity Avail.'', js_or (obj_get row ''Quantity Avail.'') (Str [])),
      (''Description'', js_or (obj_get row ''Description'') (Str [])),
      (''Datasheet'', js_or (obj_get row ''Datasheet'') (Str [])),
      (''Product Link'', js_or (obj_get row ''Product Link'') (Str []))]"
  by code_simp

lemma length_generateCondensedData: "length (generateCondensedData data) = length data"
  by (simp add: generateCondensedData_def)

lemma condense_fold_other:
  "displayName \<noteq> ''__proto__'' \<Longrightarrow> displayName \<notin> snd ` set entries \<Longrightarrow>
   obj_get (fold (\<lambda>(masterKey, displayName) newRow.
             obj_set newRow displayName (js_or (obj_get row masterKey) (Str []))) entries acc) displayName
     = obj_get acc displayName"
  by (induction entries arbitrary: acc) (auto simp: obj_get_set)

lemma condense_fold_value:
  assumes "displayName \<noteq> ''__proto__''"
  shows "distinct (map snd entries) \<Longrightarrow> (masterKey, displayName) \<in> set entries \<Longrightarrow>
   obj_get (fold (\<lambda>(masterKey, displayName) newRow.
             obj_set newRow displayName (js_or (obj_get row masterKey) (Str []))) entries acc) displayName
     = js_or (obj_get row masterKey) (Str [])"
proof (induction entries arbitrary: acc)
  case Nil
  then show ?case by simp
next
  case (Cons e entries)
  show ?case
  proof (cases "e = (masterKey, displayName)")
    case True
    with Cons.prems(1) have "displayName \<notin> snd ` set entries" by auto
    with True show ?thesis
      by (simp add: condense_fold_other[OF assms] obj_get_set[OF assms])
  next
    case False
    with Cons.prems have "distinct (map snd entries)" "(masterKey, displayName) \<in> set entries"
      by simp_all
    then show ?thesis
      by (simp add: Cons.IH)
  qed
qed

lemma condenseRow_value:
  "(masterKey, displayName) \<in> set importantMap \<Longrightarrow>
   obj_get (condenseRow row) displayName =
     (if truthy (obj_get row masterKey) then obj_get row masterKey else Str [])"
proof -
  assume m: "(masterKey, displayName) \<in> set importantMap"
  have d: "distinct (map snd importantMap)" by code_simp
  have "''__proto__'' \<notin> snd ` set importantMap"
    by (simp add: importantMap_def)
  with m have np: "displayName \<noteq> ''__proto__''"
    by (metis image_eqI snd_conv)
  from condense_fold_value[OF np d m] show ?thesis
    by (simp add: condenseRow_def js_or_def)
qed

text \<open>
  Claim C8 does not hold of the code where a field is present with a falsy value other
  than the empty string. \<^verbatim>\<open>row[masterKey] || ""\<close> replaces every falsy value, not only
  \<^verbatim>\<open>undefined\<close>: a record whose \<^verbatim>\<open>Quantity Avail.\<close> is the number 0 gets the empty string
  in that display column, where the claim says the column equals the record's value.
  The rest of the claim holds: see \<open>condenseRow_eq\<close>, \<open>condenseRow_value\<close> and
  \<open>length_generateCondensedData\<close>.
\<close>

theorem condensed_zero_becomes_blank:
  "obj_get [(''MPN'', Str ''X1''), (''Quantity Avail.'', Num 0)] ''Quantity Avail.'' = Num 0
   \<and> generateCondensedData [[(''MPN'', Str ''X1''), (''Quantity Avail.'', Num 0)]]
      = [[(''Manufacturer'', Str []), (''MPN'', Str ''X1''), (''Min / Mult (MOQ)'', Str []),
          (''Unit Price'', Str []), (''Stock Status'', Str []), (''Quantity Avail.'', Str []),
          (''Description'', Str []), (''Datasheet'', Str []), (''Product Link'', Str [])]]"
proof -
  have a: "obj_get [(''MPN'', Str ''X1''), (''Quantity Avail.'', Num 0)] ''Quantity Avail.'' = Num 0"
    by code_simp
  have b: "generateCondensedData [[(''MPN'', Str ''X1''), (''Quantity Avail.'', Num 0)]]
      = [[(''Manufacturer'', Str []), (''MPN'', Str ''X1''), (''Min / Mult (MOQ)'', Str []),
          (''Unit Price'', Str []), (''Stock Status'', Str []), (''Quantity Avail.'', Str []),
          (''Description'', Str []), (''Datasheet'', Str []), (''Product Link'', Str [])]]"
    by code_simp
  from a b show ?thesis by (intro conjI)
qed

end
